theory Spec2Isabelle
  imports Complex_Main "HOL-Library.Word"
begin

unbundle bit_operations_syntax

section \<open>The h5animate codec of motajs, as functions of HOL\<close>

text \<open>
  The development embeds \<^verbatim>\<open>packages/libs/h5animate/lib\<close>: \<^verbatim>\<open>errors.ts\<close>, \<^verbatim>\<open>binary.ts\<close>,
  \<^verbatim>\<open>decoder.ts\<close>, \<^verbatim>\<open>encoder.ts\<close>, \<^verbatim>\<open>converter.ts\<close> and the frame extraction of
  \<^verbatim>\<open>webp.ts\<close>.

  Conventions.
  \<^item> A JavaScript \<^verbatim>\<open>number\<close> that the code reads from a buffer, counts itself or only
    copies is an \<open>int\<close>. A number that a caller supplies, that the code accepts after no
    other test than \<^verbatim>\<open>typeof\<close> and a comparison, and that it then computes with is a
    \<open>rat\<close>, so that it need not be whole: \<^verbatim>\<open>spriteInfo.count\<close> as passed to the encoder,
    and with it the sizes the encoder computes, and \<^verbatim>\<open>frame_max\<close> of a legacy file. NaN,
    the infinities and the rounding of floating point are outside the model.
  \<^item> A \<^verbatim>\<open>Buffer\<close> is a list of bytes.
  \<^item> A \<^verbatim>\<open>throw\<close> is the left summand of a sum type. Besides the library's own
    \<^verbatim>\<open>H5AnimateError\<close> the platform raises \<^verbatim>\<open>RangeError\<close> (Buffer and DataView
    accesses that are out of range) and \<^verbatim>\<open>TypeError\<close> (a property read on
    \<^verbatim>\<open>null\<close> or \<^verbatim>\<open>undefined\<close>, a call of something that is no function).
  \<^item> Interfaces of \<^verbatim>\<open>types.ts\<close> are records. Where the code itself tests a value at run
    time (\<^verbatim>\<open>=== null\<close>, \<^verbatim>\<open>typeof\<close>, \<^verbatim>\<open>Array.isArray\<close>, \<^verbatim>\<open>in\<close>, truthiness), the
    model keeps the case the test is there for.
  \<^item> What \<^verbatim>\<open>JSON.parse\<close> returns is dynamically typed, so it is a value of \<open>jsval\<close>, and
    the decoder's conversion works on \<open>jsval\<close> as the JavaScript does.
  \<^item> \<^verbatim>\<open>JSON.stringify\<close>, \<^verbatim>\<open>JSON.parse\<close>, the uninitialised memory of
    \<^verbatim>\<open>Buffer.allocUnsafe\<close> and the image library \<^verbatim>\<open>sharp\<close> are not code of this
    repository: the functions that use them take them as parameters.
  \<^item> Memory is not bounded: \<^verbatim>\<open>Buffer.allocUnsafe\<close> returns a buffer of any size that is
    not negative.
\<close>

subsection \<open>errors.ts\<close>

datatype H5AnimateErrorCode =
    INVALID_SIGNATURE | INVALID_VERSION | CORRUPTED_HEADER | INVALID_IMAGE_DATA
  | INVALID_METADATA | FILE_TRUNCATED | SIZE_MISMATCH
  | VALIDATION_ERROR | TYPE_MISMATCH | MISSING_REQUIRED_FIELD | VALUE_OUT_OF_RANGE
  | INVALID_ARRAY_LENGTH
  | CONVERSION_FAILED | JSON_PARSE_ERROR | BASE64_DECODE_ERROR
  | WEBP_PROCESSING_ERROR | IMAGE_MERGE_ERROR | FRAME_EXTRACTION_ERROR
  | VALIDATION_ERROR_LEGACY

text \<open>The string each member of the enum stands for.\<close>

fun codeString :: "H5AnimateErrorCode \<Rightarrow> string" where
  "codeString INVALID_SIGNATURE = ''H5A001''"
| "codeString INVALID_VERSION = ''H5A002''"
| "codeString CORRUPTED_HEADER = ''H5A003''"
| "codeString INVALID_IMAGE_DATA = ''H5A004''"
| "codeString INVALID_METADATA = ''H5A005''"
| "codeString FILE_TRUNCATED = ''H5A006''"
| "codeString SIZE_MISMATCH = ''H5A007''"
| "codeString VALIDATION_ERROR = ''H5A100''"
| "codeString TYPE_MISMATCH = ''H5A101''"
| "codeString MISSING_REQUIRED_FIELD = ''H5A102''"
| "codeString VALUE_OUT_OF_RANGE = ''H5A103''"
| "codeString INVALID_ARRAY_LENGTH = ''H5A104''"
| "codeString CONVERSION_FAILED = ''H5A200''"
| "codeString JSON_PARSE_ERROR = ''H5A201''"
| "codeString BASE64_DECODE_ERROR = ''H5A202''"
| "codeString WEBP_PROCESSING_ERROR = ''H5A300''"
| "codeString IMAGE_MERGE_ERROR = ''H5A301''"
| "codeString FRAME_EXTRACTION_ERROR = ''H5A302''"
| "codeString VALIDATION_ERROR_LEGACY = ''H5A008''"

text \<open>
  \<^verbatim>\<open>class H5AnimateError\<close>. The message is a text for people and is left out, and so are
  \<^verbatim>\<open>actualType\<close> and \<^verbatim>\<open>fieldPath\<close>, which no function modelled here sets.
\<close>

record H5AnimateError =
  code :: H5AnimateErrorCode
  position :: "int option"
  expectedType :: "string option"
  missingFields :: "string list option"

datatype jserror = H5 H5AnimateError | RangeError | TypeError

definition mkError :: "H5AnimateErrorCode \<Rightarrow> H5AnimateError" where
  "mkError c = \<lparr>code = c, position = None, expectedType = None, missingFields = None\<rparr>"

definition createInvalidSignatureError :: "string \<Rightarrow> H5AnimateError" where
  "createInvalidSignatureError actual =
     (mkError INVALID_SIGNATURE)\<lparr>position := Some 0, expectedType := Some ''ANIM''\<rparr>"

definition createInvalidMetadataError :: "string list option \<Rightarrow> H5AnimateError" where
  "createInvalidMetadataError missing = (mkError INVALID_METADATA)\<lparr>missingFields := missing\<rparr>"

definition createConversionFailedError :: H5AnimateError where
  "createConversionFailedError = mkError CONVERSION_FAILED"

definition createWebPProcessingError :: H5AnimateError where
  "createWebPProcessingError = mkError WEBP_PROCESSING_ERROR"

definition createValidationError :: "string list option \<Rightarrow> H5AnimateError" where
  "createValidationError missing = (mkError VALIDATION_ERROR)\<lparr>missingFields := missing\<rparr>"

definition createFrameExtractionError :: H5AnimateError where
  "createFrameExtractionError = mkError FRAME_EXTRACTION_ERROR"

text \<open>Sequencing of computations that may throw.\<close>

definition andThen :: "'e + 'a \<Rightarrow> ('a \<Rightarrow> 'e + 'b) \<Rightarrow> 'e + 'b" where
  "andThen r f = (case r of Inl e \<Rightarrow> Inl e | Inr a \<Rightarrow> f a)"

subsection \<open>binary.ts: BinaryParser\<close>

type_synonym byte = "8 word"
type_synonym Buffer = "byte list"

record BinaryParser =
  buffer :: Buffer
  offset :: int

definition newBinaryParser :: "Buffer \<Rightarrow> BinaryParser" where
  "newBinaryParser b = \<lparr>buffer = b, offset = 0\<rparr>"

definition checkBounds :: "BinaryParser \<Rightarrow> int \<Rightarrow> jserror + unit" where
  "checkBounds p bytesToRead =
     (if offset p + bytesToRead > int (length (buffer p))
      then Inl (H5 ((mkError CORRUPTED_HEADER)\<lparr>position := Some (offset p)\<rparr>))
      else Inr ())"

text \<open>
  \<^verbatim>\<open>buf.subarray(start, end)\<close> of the platform: a negative index counts from the end of
  the buffer, every index is clamped to the buffer, and the result is empty when the end
  is not after the start.
\<close>

definition clampIndex :: "int \<Rightarrow> nat \<Rightarrow> nat" where
  "clampIndex i len = (if i < 0 then nat (max (int len + i) 0) else min (nat i) len)"

definition subarray :: "Buffer \<Rightarrow> int \<Rightarrow> int \<Rightarrow> Buffer" where
  "subarray b start fin =
     (let s = clampIndex start (length b); e = clampIndex fin (length b)
      in take (e - s) (drop s b))"

text \<open>
  \<^verbatim>\<open>view.getUint32(offset, true)\<close> of the platform's DataView: little-endian, and a
  \<^verbatim>\<open>RangeError\<close> when the four bytes are not all inside the view.
\<close>

definition le32 :: "byte \<Rightarrow> byte \<Rightarrow> byte \<Rightarrow> byte \<Rightarrow> int" where
  "le32 b0 b1 b2 b3 = uint b0 + 256 * uint b1 + 65536 * uint b2 + 16777216 * uint b3"

definition getUint32 :: "Buffer \<Rightarrow> int \<Rightarrow> jserror + int" where
  "getUint32 b i =
     (if i < 0 then Inl RangeError
      else case take 4 (drop (nat i) b) of
             [b0, b1, b2, b3] \<Rightarrow> Inr (le32 b0 b1 b2 b3)
           | _ \<Rightarrow> Inl RangeError)"

text \<open>
  \<^verbatim>\<open>bytes.toString("ascii")\<close> of the platform: decoding with the encoding
  \<^verbatim>\<open>ascii\<close> clears the highest bit of every byte and reads the result as a character.
\<close>

definition toStringAscii :: "Buffer \<Rightarrow> string" where
  "toStringAscii bs = map (\<lambda>b. char_of (unat (b AND 0x7F))) bs"

definition readUInt32LE :: "BinaryParser \<Rightarrow> jserror + (int \<times> BinaryParser)" where
  "readUInt32LE p =
     andThen (checkBounds p 4) (\<lambda>_.
     andThen (getUint32 (buffer p) (offset p)) (\<lambda>v.
     Inr (v, p\<lparr>offset := offset p + 4\<rparr>)))"

definition readString :: "BinaryParser \<Rightarrow> int \<Rightarrow> jserror + (string \<times> BinaryParser)" where
  "readString p len =
     andThen (checkBounds p len) (\<lambda>_.
     let bytes = subarray (buffer p) (offset p) (offset p + len)
     in Inr (toStringAscii bytes, p\<lparr>offset := offset p + len\<rparr>))"

definition readBytes :: "BinaryParser \<Rightarrow> int \<Rightarrow> jserror + (Buffer \<times> BinaryParser)" where
  "readBytes p len =
     andThen (checkBounds p len) (\<lambda>_.
     let bytes = subarray (buffer p) (offset p) (offset p + len)
     in Inr (bytes, p\<lparr>offset := offset p + len\<rparr>))"

definition hasMore :: "BinaryParser \<Rightarrow> bool" where
  "hasMore p = (offset p < int (length (buffer p)))"

definition getRemainingBytes :: "BinaryParser \<Rightarrow> int" where
  "getRemainingBytes p = int (length (buffer p)) - offset p"

text \<open>
  The states a parser takes when every read asks for a count that is not negative: the
  fresh parser over a buffer, and the parser after a read that returned.
\<close>

inductive reads :: "Buffer \<Rightarrow> BinaryParser \<Rightarrow> bool" for b :: Buffer where
  fresh: "reads b (newBinaryParser b)"
| afterUInt32: "reads b p \<Longrightarrow> readUInt32LE p = Inr (v, p') \<Longrightarrow> reads b p'"
| afterString: "reads b p \<Longrightarrow> 0 \<le> n \<Longrightarrow> readString p n = Inr (s, p') \<Longrightarrow> reads b p'"
| afterBytes: "reads b p \<Longrightarrow> 0 \<le> n \<Longrightarrow> readBytes p n = Inr (bs, p') \<Longrightarrow> reads b p'"

subsection \<open>Dynamically typed values\<close>

text \<open>
  The values of JavaScript that JSON text denotes, and \<^verbatim>\<open>undefined\<close>. An object is
  the list of its own properties in insertion order.
\<close>

datatype jsval =
    JUndefined | JNull | JBool bool | JNum int | JStr string
  | JArr "jsval list" | JObj "(string \<times> jsval) list"

text \<open>\<^verbatim>\<open>v.k\<close> for a property name that no array, string, number or boolean has.\<close>

fun getProp :: "jsval \<Rightarrow> string \<Rightarrow> jserror + jsval" where
  "getProp JUndefined k = Inl TypeError"
| "getProp JNull k = Inl TypeError"
| "getProp (JObj ps) k = Inr (case map_of ps k of None \<Rightarrow> JUndefined | Some v \<Rightarrow> v)"
| "getProp v k = Inr JUndefined"

text \<open>The decimal numeral of an index, as a property name.\<close>

fun decimal :: "nat \<Rightarrow> string" where
  "decimal n =
     (if n < 10 then [char_of (48 + n)] else decimal (n div 10) @ [char_of (48 + n mod 10)])"

declare decimal.simps [simp del]

text \<open>\<^verbatim>\<open>v[i]\<close> for an index \<open>i\<close>.\<close>

fun getIndex :: "jsval \<Rightarrow> nat \<Rightarrow> jserror + jsval" where
  "getIndex JUndefined i = Inl TypeError"
| "getIndex JNull i = Inl TypeError"
| "getIndex (JArr xs) i = Inr (if i < length xs then xs ! i else JUndefined)"
| "getIndex (JObj ps) i = Inr (case map_of ps (decimal i) of None \<Rightarrow> JUndefined | Some v \<Rightarrow> v)"
| "getIndex (JStr s) i = Inr (if i < length s then JStr [s ! i] else JUndefined)"
| "getIndex v i = Inr JUndefined"

text \<open>The operator \<^verbatim>\<open>??\<close> and the truth of a value in a condition.\<close>

definition nullish :: "jsval \<Rightarrow> bool" where
  "nullish v = (v = JUndefined \<or> v = JNull)"

definition orElse :: "jsval \<Rightarrow> jsval \<Rightarrow> jsval" where
  "orElse v d = (if nullish v then d else v)"

fun truthy :: "jsval \<Rightarrow> bool" where
  "truthy JUndefined = False"
| "truthy JNull = False"
| "truthy (JBool b) = b"
| "truthy (JNum n) = (n \<noteq> 0)"
| "truthy (JStr s) = (s \<noteq> [])"
| "truthy v = True"

text \<open>A function that may throw, applied to the elements of a list from left to right.\<close>

fun traverse :: "('a \<Rightarrow> 'e + 'b) \<Rightarrow> 'a list \<Rightarrow> 'e + 'b list" where
  "traverse f [] = Inr []"
| "traverse f (x # xs) = andThen (f x) (\<lambda>y. andThen (traverse f xs) (\<lambda>ys. Inr (y # ys)))"

text \<open>\<^verbatim>\<open>v.map(f)\<close>: a \<^verbatim>\<open>TypeError\<close> unless \<open>v\<close> is an array.\<close>

fun callMap :: "jsval \<Rightarrow> (jsval \<Rightarrow> jserror + jsval) \<Rightarrow> jserror + jsval" where
  "callMap (JArr xs) f = andThen (traverse f xs) (\<lambda>ys. Inr (JArr ys))"
| "callMap v f = Inl TypeError"

subsection \<open>types.ts\<close>

record SpriteDimension =
  width :: int
  height :: int

text \<open>
  \<^verbatim>\<open>count: number\<close>. The decoder reads the count as an unsigned 32-bit integer, and the
  caller of the encoder passes any number, so the record leaves the type of the count
  open: it is \<open>int\<close> in what is decoded and \<open>rat\<close> in what is to be encoded.
\<close>

record 'n SpriteInfo =
  count :: 'n
  dimensions :: "SpriteDimension list"

record FileHeader =
  signature :: string
  version :: int
  imageDataSize :: int
  metaDataSize :: int

record DecodedH5Animate =
  meta :: jsval
  spriteInfo :: "int SpriteInfo"
  webpData :: Buffer

subsection \<open>decoder.ts\<close>

definition FILE_SIGNATURE :: string where
  "FILE_SIGNATURE = ''ANIM''"

definition parseHeader :: "BinaryParser \<Rightarrow> jserror + (FileHeader \<times> BinaryParser)" where
  "parseHeader parser =
     andThen (readString parser 4) (\<lambda>(sig, p1).
     if sig \<noteq> FILE_SIGNATURE then Inl (H5 (createInvalidSignatureError sig))
     else
     andThen (readUInt32LE p1) (\<lambda>(ver, p2).
     andThen (readUInt32LE p2) (\<lambda>(isize, p3).
     andThen (readUInt32LE p3) (\<lambda>(msize, p4).
     Inr (\<lparr>signature = sig, version = ver, imageDataSize = isize, metaDataSize = msize\<rparr>,
          p4)))))"

text \<open>The loop of \<^verbatim>\<open>parseSpriteInfo\<close>: \<open>n\<close> more pairs to read.\<close>

fun readDimensions ::
  "nat \<Rightarrow> BinaryParser \<Rightarrow> jserror + (SpriteDimension list \<times> BinaryParser)" where
  "readDimensions 0 p = Inr ([], p)"
| "readDimensions (Suc n) p =
     andThen (readUInt32LE p) (\<lambda>(w, p1).
     andThen (readUInt32LE p1) (\<lambda>(h, p2).
     andThen (readDimensions n p2) (\<lambda>(ds, p3).
     Inr (\<lparr>width = w, height = h\<rparr> # ds, p3))))"

definition parseSpriteInfo :: "BinaryParser \<Rightarrow> jserror + (int SpriteInfo \<times> BinaryParser)" where
  "parseSpriteInfo parser =
     andThen (readUInt32LE parser) (\<lambda>(c, p1).
     andThen (readDimensions (nat c) p1) (\<lambda>(ds, p2).
     Inr (\<lparr>count = c, dimensions = ds\<rparr>, p2)))"

text \<open>
  \<^verbatim>\<open>getSpriteInfoSize\<close>, which \<^verbatim>\<open>decoder.ts\<close> and \<^verbatim>\<open>encoder.ts\<close> each define, with
  the same body.
\<close>

definition getSpriteInfoSize :: "'n::comm_semiring_1 SpriteInfo \<Rightarrow> 'n" where
  "getSpriteInfoSize si = 4 + count si * 8"

definition convertArrayToObject :: "jsval \<Rightarrow> jserror + jsval" where
  "convertArrayToObject objArray =
     andThen (getIndex objArray 0) (\<lambda>a0.
     andThen (getIndex objArray 1) (\<lambda>a1.
     andThen (getIndex objArray 2) (\<lambda>a2.
     andThen (getIndex objArray 3) (\<lambda>a3.
     andThen (getIndex objArray 4) (\<lambda>a4.
     andThen (getIndex objArray 5) (\<lambda>a5.
     andThen (getIndex objArray 6) (\<lambda>a6.
     Inr (JObj [(''index'', a0), (''x'', a1), (''y'', a2), (''scale'', a3), (''opacity'', a4),
                (''mirror'', orElse a5 (JNum 0)), (''rotate'', orElse a6 (JNum 0))]))))))))"

text \<open>One frame of \<^verbatim>\<open>convertArraysToObjects\<close>, with \<^verbatim>\<open>frame.objects?.map\<close>.\<close>

definition convertFrameArrays :: "jsval \<Rightarrow> jserror + jsval" where
  "convertFrameArrays fr =
     andThen (getProp fr ''sound'') (\<lambda>snd.
     andThen (getProp fr ''objects'') (\<lambda>objs.
     andThen (if nullish objs then Inr JUndefined else callMap objs convertArrayToObject) (\<lambda>os.
     Inr (JObj [(''sound'', snd), (''objects'', os)]))))"

definition convertArraysToObjects :: "jsval \<Rightarrow> jserror + jsval" where
  "convertArraysToObjects rawMeta =
     andThen (getProp rawMeta ''frame'') (\<lambda>fr.
     if \<not> truthy fr then Inr rawMeta
     else
     andThen (getProp rawMeta ''ratio'') (\<lambda>r.
     andThen (callMap fr convertFrameArrays) (\<lambda>frs.
     Inr (JObj [(''ratio'', r), (''frame'', frs)]))))"

text \<open>
  \<^verbatim>\<open>decodeH5Animate\<close>. The parameter \<open>parse\<close> is \<^verbatim>\<open>JSON.parse\<close> on the text of the
  bytes read as UTF-8; it gives \<open>None\<close> where \<^verbatim>\<open>JSON.parse\<close> throws.
\<close>

definition decodeH5Animate ::
  "(Buffer \<Rightarrow> jsval option) \<Rightarrow> Buffer \<Rightarrow> jserror + DecodedH5Animate" where
  "decodeH5Animate parse buf =
     andThen (parseHeader (newBinaryParser buf)) (\<lambda>(header, p1).
     andThen (parseSpriteInfo p1) (\<lambda>(si, p2).
     let spriteInfoSize = getSpriteInfoSize si;
         webpDataSize = imageDataSize header - spriteInfoSize
     in
     andThen (readBytes p2 webpDataSize) (\<lambda>(webp, p3).
     andThen (readBytes p3 (metaDataSize header)) (\<lambda>(metaBuffer, p4).
     case parse metaBuffer of
       None \<Rightarrow> Inl (H5 (createInvalidMetadataError None))
     | Some rawMeta \<Rightarrow>
         andThen (convertArraysToObjects rawMeta) (\<lambda>m.
         Inr \<lparr>meta = m, spriteInfo = si, webpData = webp\<rparr>)))))"

subsection \<open>binary.ts: BinaryWriter\<close>

record BinaryWriter =
  wbuffer :: Buffer
  woffset :: nat

text \<open>
  \<^verbatim>\<open>Buffer.allocUnsafe(totalSize)\<close>: a \<^verbatim>\<open>RangeError\<close> for a negative size; the length
  of the new buffer is the size without its fraction; the buffer holds whatever the memory
  held, here the bytes \<open>garbage 0\<close>, \<open>garbage 1\<close>, and so on.
\<close>

definition newBinaryWriter :: "(nat \<Rightarrow> byte) \<Rightarrow> rat \<Rightarrow> jserror + BinaryWriter" where
  "newBinaryWriter garbage totalSize =
     (if totalSize < 0 then Inl RangeError
      else Inr \<lparr>wbuffer = map garbage [0..<nat \<lfloor>totalSize\<rfloor>], woffset = 0\<rparr>)"

text \<open>
  Bytes put into a buffer from a position on: the buffer keeps its length, and bytes
  that do not fit are dropped, as \<^verbatim>\<open>buffer.write\<close> and \<^verbatim>\<open>source.copy\<close> do.
\<close>

definition putBytes :: "Buffer \<Rightarrow> nat \<Rightarrow> Buffer \<Rightarrow> Buffer" where
  "putBytes buf pos bs =
     take pos buf @ take (length buf - pos) bs @ drop (pos + length bs) buf"

text \<open>
  \<^verbatim>\<open>buffer.write(value, offset, "ascii")\<close>: one byte for each character; a
  \<^verbatim>\<open>RangeError\<close> when the offset is beyond the buffer; the result is the number of
  bytes written.
\<close>

definition writeString :: "BinaryWriter \<Rightarrow> string \<Rightarrow> jserror + BinaryWriter" where
  "writeString w s =
     (if woffset w > length (wbuffer w) then Inl RangeError
      else let bytes = map (\<lambda>c. of_char c :: byte) s;
               bytesWritten = min (length bytes) (length (wbuffer w) - woffset w)
           in Inr \<lparr>wbuffer = putBytes (wbuffer w) (woffset w) bytes,
                    woffset = woffset w + bytesWritten\<rparr>)"

text \<open>
  \<^verbatim>\<open>buffer.writeUInt32LE(value, offset)\<close>: a \<^verbatim>\<open>RangeError\<close> when the value is below
  0 or above \<open>2^32 - 1\<close>, or when the four bytes are not all inside the buffer. The bytes
  stored are those of the value without its fraction: each byte is the value converted to
  an unsigned 8-bit integer, and \<^verbatim>\<open>value >>> 8\<close> the next value.
\<close>

definition u32Bytes :: "int \<Rightarrow> Buffer" where
  "u32Bytes v = [of_int v, of_int (v div 256), of_int (v div 65536), of_int (v div 16777216)]"

definition writeUInt32LE :: "BinaryWriter \<Rightarrow> rat \<Rightarrow> jserror + BinaryWriter" where
  "writeUInt32LE w v =
     (if v < 0 \<or> v > 4294967295 then Inl RangeError
      else if woffset w + 4 > length (wbuffer w) then Inl RangeError
      else Inr \<lparr>wbuffer = putBytes (wbuffer w) (woffset w) (u32Bytes \<lfloor>v\<rfloor>),
                 woffset = woffset w + 4\<rparr>)"

text \<open>
  \<^verbatim>\<open>source.copy(this.buffer, this.offset)\<close> copies what fits and nothing when the
  offset is at or beyond the end; the offset moves by the length of the source either way.
\<close>

definition writeBuffer :: "BinaryWriter \<Rightarrow> Buffer \<Rightarrow> BinaryWriter" where
  "writeBuffer w source =
     \<lparr>wbuffer = (if woffset w \<ge> length (wbuffer w) then wbuffer w
                 else putBytes (wbuffer w) (woffset w) source),
      woffset = woffset w + length source\<rparr>"

definition getBuffer :: "BinaryWriter \<Rightarrow> Buffer" where
  "getBuffer w = wbuffer w"

subsection \<open>types.ts: the metadata\<close>

record SoundMeta =
  name :: string
  volume :: "int option"
  pitch :: "int option"

record H5AnimateObject =
  obj_index :: int
  obj_x :: int
  obj_y :: int
  obj_scale :: int
  obj_opacity :: int
  obj_mirror :: "int option"
  obj_rotate :: "int option"

record H5AnimateFrame =
  sound :: "SoundMeta list option"
  objects :: "H5AnimateObject list option"

record H5AnimateMeta =
  ratio :: int
  frame :: "H5AnimateFrame list"

subsection \<open>encoder.ts\<close>

definition CURRENT_VERSION :: int where
  "CURRENT_VERSION = 1"

definition convertObjectToArray :: "H5AnimateObject \<Rightarrow> int list" where
  "convertObjectToArray obj =
     [obj_index obj, obj_x obj, obj_y obj, obj_scale obj, obj_opacity obj,
      (case obj_mirror obj of None \<Rightarrow> 0 | Some m \<Rightarrow> m),
      (case obj_rotate obj of None \<Rightarrow> 0 | Some r \<Rightarrow> r)]"

text \<open>
  The value \<^verbatim>\<open>JSON.stringify(meta, metaReplacer)\<close> writes down. \<^verbatim>\<open>JSON.stringify\<close>
  visits the properties of \<open>meta\<close>, leaves out a property that is \<^verbatim>\<open>undefined\<close>, and
  calls \<^verbatim>\<open>metaReplacer\<close> with each key and value; \<^verbatim>\<open>metaReplacer\<close> replaces the array
  under the key \<^verbatim>\<open>objects\<close> by \<^verbatim>\<open>value.map(convertObjectToArray)\<close> and returns every
  other value as it is. In a value of type \<^verbatim>\<open>H5AnimateMeta\<close> that key is a frame's.
\<close>

definition soundTree :: "SoundMeta \<Rightarrow> jsval" where
  "soundTree s =
     JObj ([(''name'', JStr (name s))]
           @ (case volume s of None \<Rightarrow> [] | Some v \<Rightarrow> [(''volume'', JNum v)])
           @ (case pitch s of None \<Rightarrow> [] | Some v \<Rightarrow> [(''pitch'', JNum v)]))"

text \<open>\<^verbatim>\<open>metaReplacer\<close> at the key \<^verbatim>\<open>objects\<close>.\<close>

definition metaReplacer :: "H5AnimateObject list \<Rightarrow> jsval" where
  "metaReplacer objs = JArr (map (\<lambda>obj. JArr (map JNum (convertObjectToArray obj))) objs)"

definition frameTree :: "H5AnimateFrame \<Rightarrow> jsval" where
  "frameTree f =
     JObj ((case sound f of None \<Rightarrow> [] | Some ss \<Rightarrow> [(''sound'', JArr (map soundTree ss))])
           @ (case objects f of None \<Rightarrow> [] | Some os \<Rightarrow> [(''objects'', metaReplacer os)]))"

definition metaTree :: "H5AnimateMeta \<Rightarrow> jsval" where
  "metaTree m = JObj [(''ratio'', JNum (ratio m)), (''frame'', JArr (map frameTree (frame m)))]"

text \<open>
  What a run-time test finds at a property: nothing, a value of another type than the
  declared one, or a value of the declared type.
\<close>

datatype 'a checked = Missing | WrongType | Has 'a

fun isHas :: "'a checked \<Rightarrow> bool" where
  "isHas (Has a) = True"
| "isHas c = False"

text \<open>
  The arguments of \<^verbatim>\<open>encodeH5Animate\<close> as \<^verbatim>\<open>validateEncodeInput\<close> looks at them:
  \<open>None\<close> is \<^verbatim>\<open>null\<close> or \<^verbatim>\<open>undefined\<close> (for \<open>webpData\<close>: anything that is no
  Buffer).
\<close>

record MetaArg =
  argRatio :: "int checked"
  argFrame :: "H5AnimateFrame list checked"

record SpriteInfoArg =
  argCount :: "rat checked"
  argDimensions :: "SpriteDimension list checked"

definition validateEncodeInput ::
  "MetaArg option \<Rightarrow> SpriteInfoArg option \<Rightarrow> Buffer option \<Rightarrow> jserror + unit" where
  "validateEncodeInput m si webp =
     (let missing =
            (case m of
               None \<Rightarrow> [''meta'']
             | Some ma \<Rightarrow>
                 (if \<not> isHas (argRatio ma) then [''meta.ratio''] else [])
                 @ (if \<not> isHas (argFrame ma) then [''meta.frame''] else []))
          @ (case si of
               None \<Rightarrow> [''spriteInfo'']
             | Some sa \<Rightarrow>
                 (if \<not> isHas (argCount sa) then [''spriteInfo.count''] else [])
                 @ (if \<not> isHas (argDimensions sa) then [''spriteInfo.dimensions''] else []))
          @ (case webp of None \<Rightarrow> [''webpData''] | Some b \<Rightarrow> [])
      in if length missing > 0 then Inl (H5 (createValidationError (Some missing)))
         else Inr ())"

text \<open>The arguments at their declared types, which is what they are once validated.\<close>

definition typedArgs ::
  "MetaArg option \<Rightarrow> SpriteInfoArg option \<Rightarrow> Buffer option \<Rightarrow>
   (H5AnimateMeta \<times> rat SpriteInfo \<times> Buffer) option" where
  "typedArgs m si webp =
     (case (m, si, webp) of
        (Some ma, Some sa, Some b) \<Rightarrow>
          (case (argRatio ma, argFrame ma, argCount sa, argDimensions sa) of
             (Has r, Has f, Has c, Has d) \<Rightarrow>
               Some (\<lparr>ratio = r, frame = f\<rparr>, \<lparr>count = c, dimensions = d\<rparr>, b)
           | _ \<Rightarrow> None)
      | _ \<Rightarrow> None)"

definition metaArg :: "H5AnimateMeta \<Rightarrow> MetaArg option" where
  "metaArg m = Some \<lparr>argRatio = Has (ratio m), argFrame = Has (frame m)\<rparr>"

text \<open>A \<open>spriteInfo\<close> with a whole count, as an argument.\<close>

definition spriteInfoArg :: "int SpriteInfo \<Rightarrow> SpriteInfoArg option" where
  "spriteInfoArg si =
     Some \<lparr>argCount = Has (of_int (count si)), argDimensions = Has (dimensions si)\<rparr>"

text \<open>The loop over \<^verbatim>\<open>spriteInfo.dimensions\<close>.\<close>

fun writeDimensions :: "BinaryWriter \<Rightarrow> SpriteDimension list \<Rightarrow> jserror + BinaryWriter" where
  "writeDimensions w [] = Inr w"
| "writeDimensions w (d # ds) =
     andThen (writeUInt32LE w (of_int (width d))) (\<lambda>w1.
     andThen (writeUInt32LE w1 (of_int (height d))) (\<lambda>w2.
     writeDimensions w2 ds))"

text \<open>
  \<^verbatim>\<open>encodeH5Animate\<close>. The parameter \<open>stringify\<close> is \<^verbatim>\<open>JSON.stringify\<close> followed by
  \<^verbatim>\<open>Buffer.from(text, "utf8")\<close>; \<open>garbage\<close> is the memory \<^verbatim>\<open>Buffer.allocUnsafe\<close> hands
  out.
\<close>

definition encodeH5Animate ::
  "(jsval \<Rightarrow> Buffer) \<Rightarrow> (nat \<Rightarrow> byte) \<Rightarrow>
   MetaArg option \<Rightarrow> SpriteInfoArg option \<Rightarrow> Buffer option \<Rightarrow> jserror + Buffer" where
  "encodeH5Animate stringify garbage m si webp =
     andThen (validateEncodeInput m si webp) (\<lambda>_.
     case typedArgs m si webp of
       None \<Rightarrow> Inl TypeError
     | Some (mt, sinfo, webpBytes) \<Rightarrow>
         let metaBuffer = stringify (metaTree mt);
             spriteInfoSize = getSpriteInfoSize sinfo;
             totalImageDataSize = spriteInfoSize + of_nat (length webpBytes);
             headerSize = 16;
             totalSize = headerSize + totalImageDataSize + of_nat (length metaBuffer)
         in
         andThen (newBinaryWriter garbage totalSize) (\<lambda>w0.
         andThen (writeString w0 FILE_SIGNATURE) (\<lambda>w1.
         andThen (writeUInt32LE w1 (of_int CURRENT_VERSION)) (\<lambda>w2.
         andThen (writeUInt32LE w2 totalImageDataSize) (\<lambda>w3.
         andThen (writeUInt32LE w3 (of_nat (length metaBuffer))) (\<lambda>w4.
         andThen (writeUInt32LE w4 (count sinfo)) (\<lambda>w5.
         andThen (writeDimensions w5 (dimensions sinfo)) (\<lambda>w6.
         Inr (getBuffer (writeBuffer (writeBuffer w6 webpBytes) metaBuffer))))))))))"

subsection \<open>Reading a dynamically typed value at the declared types\<close>

text \<open>
  The decoder returns its metadata as it came out of \<^verbatim>\<open>JSON.parse\<close> and through
  \<^verbatim>\<open>convertArraysToObjects\<close>. These functions read such a value as a value of type
  \<^verbatim>\<open>H5AnimateMeta\<close>: a property that is \<^verbatim>\<open>undefined\<close> counts as an absent one, and
  the order of the properties does not matter. The result is \<open>None\<close> when a property has
  another type than the declared one.
\<close>

definition propOf :: "jsval \<Rightarrow> string \<Rightarrow> jsval" where
  "propOf v k =
     (case v of
        JObj ps \<Rightarrow> (case map_of ps k of None \<Rightarrow> JUndefined | Some x \<Rightarrow> x)
      | _ \<Rightarrow> JUndefined)"

fun asNum :: "jsval \<Rightarrow> int option" where
  "asNum (JNum n) = Some n"
| "asNum v = None"

fun asStr :: "jsval \<Rightarrow> string option" where
  "asStr (JStr s) = Some s"
| "asStr v = None"

definition asOptional :: "(jsval \<Rightarrow> 'a option) \<Rightarrow> jsval \<Rightarrow> 'a option option" where
  "asOptional f v = (if v = JUndefined then Some None else map_option Some (f v))"

fun allSome :: "'a option list \<Rightarrow> 'a list option" where
  "allSome [] = Some []"
| "allSome (None # xs) = None"
| "allSome (Some x # xs) = map_option (\<lambda>ys. x # ys) (allSome xs)"

fun asArray :: "(jsval \<Rightarrow> 'a option) \<Rightarrow> jsval \<Rightarrow> 'a list option" where
  "asArray f (JArr xs) = allSome (map f xs)"
| "asArray f v = None"

definition asSound :: "jsval \<Rightarrow> SoundMeta option" where
  "asSound v =
     (case (asStr (propOf v ''name''), asOptional asNum (propOf v ''volume''),
            asOptional asNum (propOf v ''pitch'')) of
        (Some n, Some vol, Some p) \<Rightarrow> Some \<lparr>name = n, volume = vol, pitch = p\<rparr>
      | _ \<Rightarrow> None)"

definition asObject :: "jsval \<Rightarrow> H5AnimateObject option" where
  "asObject v =
     (case (asNum (propOf v ''index''), asNum (propOf v ''x''), asNum (propOf v ''y''),
            asNum (propOf v ''scale''), asNum (propOf v ''opacity''),
            asOptional asNum (propOf v ''mirror''), asOptional asNum (propOf v ''rotate'')) of
        (Some i, Some a, Some b, Some s, Some opa, Some mi, Some ro) \<Rightarrow>
          Some \<lparr>obj_index = i, obj_x = a, obj_y = b, obj_scale = s, obj_opacity = opa,
                obj_mirror = mi, obj_rotate = ro\<rparr>
      | _ \<Rightarrow> None)"

definition asFrame :: "jsval \<Rightarrow> H5AnimateFrame option" where
  "asFrame v =
     (case (asOptional (asArray asSound) (propOf v ''sound''),
            asOptional (asArray asObject) (propOf v ''objects'')) of
        (Some s, Some os) \<Rightarrow> Some \<lparr>sound = s, objects = os\<rparr>
      | _ \<Rightarrow> None)"

definition asMeta :: "jsval \<Rightarrow> H5AnimateMeta option" where
  "asMeta v =
     (case (asNum (propOf v ''ratio''), asArray asFrame (propOf v ''frame'')) of
        (Some r, Some fs) \<Rightarrow> Some \<lparr>ratio = r, frame = fs\<rparr>
      | _ \<Rightarrow> None)"

text \<open>The metadata with the defaults of \<open>mirror\<close> and \<open>rotate\<close> filled in.\<close>

definition normalizeObject :: "H5AnimateObject \<Rightarrow> H5AnimateObject" where
  "normalizeObject obj =
     obj\<lparr>obj_mirror := Some (case obj_mirror obj of None \<Rightarrow> 0 | Some m \<Rightarrow> m),
         obj_rotate := Some (case obj_rotate obj of None \<Rightarrow> 0 | Some r \<Rightarrow> r)\<rparr>"

definition normalizeFrame :: "H5AnimateFrame \<Rightarrow> H5AnimateFrame" where
  "normalizeFrame f = f\<lparr>objects := map_option (map normalizeObject) (objects f)\<rparr>"

definition normalizeMeta :: "H5AnimateMeta \<Rightarrow> H5AnimateMeta" where
  "normalizeMeta m = m\<lparr>frame := map normalizeFrame (frame m)\<rparr>"

subsection \<open>converter.ts\<close>















subsection \<open>webp.ts: extractFrameByIndex\<close>

record ExtractFrameOptions =
  optWidth :: "int option"
  optHeight :: int

text \<open>
  \<^verbatim>\<open>extractFrameByIndex\<close>. The parameter \<open>metadata\<close> is \<^verbatim>\<open>sharp(buf).metadata()\<close>: the
  measured width and height, each possibly \<^verbatim>\<open>undefined\<close>, or \<open>None\<close> when sharp fails;
  \<open>crop\<close> is \<^verbatim>\<open>sharp(buf).extract({left, top, width, height}).toBuffer()\<close>, \<open>None\<close>
  when sharp fails. The \<^verbatim>\<open>catch\<close> passes an \<^verbatim>\<open>H5AnimateError\<close> on and turns every
  other error into a \<^verbatim>\<open>createWebPProcessingError\<close>.
\<close>

definition extractFrameByIndex ::
  "(Buffer \<Rightarrow> (int option \<times> int option) option) \<Rightarrow>
   (Buffer \<Rightarrow> int \<Rightarrow> int \<Rightarrow> int \<Rightarrow> int \<Rightarrow> Buffer option) \<Rightarrow>
   Buffer \<Rightarrow> int \<Rightarrow> ExtractFrameOptions \<Rightarrow> jserror + Buffer" where
  "extractFrameByIndex metadata crop webpBuffer frameIndex options =
     (let h = optHeight options in
      case metadata webpBuffer of
        None \<Rightarrow> Inl (H5 createWebPProcessingError)
      | Some (mw, mh) \<Rightarrow>
          let spriteWidth = (case optWidth options of
                               Some w \<Rightarrow> w
                             | None \<Rightarrow> (case mw of Some w \<Rightarrow> w | None \<Rightarrow> 0));
              spriteHeight = (case mh of Some x \<Rightarrow> x | None \<Rightarrow> 0);
              top = frameIndex * h
          in if top + h > spriteHeight then Inl (H5 createWebPProcessingError)
             else case crop webpBuffer 0 top spriteWidth h of
                    None \<Rightarrow> Inl (H5 createWebPProcessingError)
                  | Some frameBuffer \<Rightarrow> Inr frameBuffer)"

section \<open>Properties\<close>

subsection \<open>Auxiliary facts\<close>

lemma andThen_simps [simp]:
  "andThen (Inl e) f = Inl e"
  "andThen (Inr a) f = f a"
  by (simp_all add: andThen_def)

lemma reads_inv: "reads b p \<Longrightarrow> buffer p = b \<and> 0 \<le> offset p \<and> offset p \<le> int (length b)"
proof (induction rule: reads.induct)
  case fresh
  show ?case by (simp add: newBinaryParser_def)
next
  case (afterUInt32 p v p')
  then show ?case
    by (auto simp add: readUInt32LE_def checkBounds_def andThen_def split: if_splits sum.splits)
next
  case (afterString p n s p')
  then show ?case
    by (auto simp add: readString_def checkBounds_def andThen_def Let_def split: if_splits)
next
  case (afterBytes p n bs p')
  then show ?case
    by (auto simp add: readBytes_def checkBounds_def andThen_def Let_def split: if_splits)
qed

lemma subarray_inside:
  assumes "0 \<le> i" "0 \<le> n" "i + n \<le> int (length b)"
  shows "subarray b i (i + n) = take (nat n) (drop (nat i) b)"
proof -
  from assms have a: "nat i \<le> length b" and c: "nat (i + n) \<le> length b"
    and d: "nat (i + n) - nat i = nat n" by linarith+
  from assms a c d show ?thesis
    by (simp add: subarray_def clampIndex_def Let_def min_absorb1)
qed

lemma length4: "length xs = 4 \<Longrightarrow> \<exists>a b c d. xs = [a, b, c, d]"
  by (auto simp add: length_Suc_conv numeral_eq_Suc)

lemma take4_inside:
  assumes "k + 4 \<le> length (b :: Buffer)"
  shows "\<exists>b0 b1 b2 b3. take 4 (drop k b) = [b0, b1, b2, b3]"
proof -
  from assms have "length (take 4 (drop k b)) = 4" by simp
  then show ?thesis by (rule length4)
qed

lemma le32_range: "0 \<le> le32 b0 b1 b2 b3 \<and> le32 b0 b1 b2 b3 < 4294967296"
proof -
  have "uint b0 < 256" "uint b1 < 256" "uint b2 < 256" "uint b3 < 256"
    using uint_bounded [of b0] uint_bounded [of b1] uint_bounded [of b2] uint_bounded [of b3]
    by simp_all
  moreover have "0 \<le> uint b0" "0 \<le> uint b1" "0 \<le> uint b2" "0 \<le> uint b3" by simp_all
  ultimately show ?thesis unfolding le32_def by linarith
qed

lemma getUint32_inside:
  assumes "0 \<le> i" "i + 4 \<le> int (length b)"
  shows "\<exists>v. getUint32 b i = Inr v \<and> 0 \<le> v \<and> v < 4294967296"
proof -
  from assms have "nat i + 4 \<le> length b" by linarith
  from take4_inside [OF this] obtain b0 b1 b2 b3
    where "take 4 (drop (nat i) b) = [b0, b1, b2, b3]" by blast
  with assms(1) have "getUint32 b i = Inr (le32 b0 b1 b2 b3)" by (simp add: getUint32_def)
  with le32_range [of b0 b1 b2 b3] show ?thesis by simp
qed




subsection \<open>Frame extraction\<close>

text \<open>
  Claim C5, as the code has it. When the sheet's measured height is \<open>sheetHeight\<close> and
  \<open>frameIndex * height + height > sheetHeight\<close>, \<^verbatim>\<open>extractFrameByIndex\<close> raises the
  \<^verbatim>\<open>H5AnimateError\<close> that \<^verbatim>\<open>createWebPProcessingError\<close> makes, whose code is
  \<^verbatim>\<open>WEBP_PROCESSING_ERROR\<close>, that is \<^verbatim>\<open>H5A300\<close>.
\<close>

theorem extractFrameByIndex_out_of_range:
  "metadata sheet = Some (mw, Some sheetHeight) \<Longrightarrow>
   frameIndex * optHeight options + optHeight options > sheetHeight \<Longrightarrow>
   extractFrameByIndex metadata crop sheet frameIndex options
     = Inl (H5 createWebPProcessingError)
   \<and> code createWebPProcessingError = WEBP_PROCESSING_ERROR
   \<and> codeString (code createWebPProcessingError) = ''H5A300''"
  by (simp add: extractFrameByIndex_def createWebPProcessingError_def mkError_def Let_def)

theorem extractFrameByIndex_out_of_range_witness:
  "extractFrameByIndex (\<lambda>b. Some (Some 100, Some 50)) (\<lambda>b l t w h. Some b) [1, 2] 1
       \<lparr>optWidth = None, optHeight = 50\<rparr> = Inl (H5 createWebPProcessingError)
   \<and> codeString (code createWebPProcessingError) = ''H5A300''"
  using extractFrameByIndex_out_of_range
    [where metadata = "\<lambda>b. Some (Some 100, Some 50)" and sheet = "[1, 2]"
       and mw = "Some 100" and sheetHeight = 50 and frameIndex = 1
       and options = "\<lparr>optWidth = None, optHeight = 50\<rparr>"
       and crop = "\<lambda>b l t w h. Some b"]
  by simp

text \<open>
  Claim C5 as stated fails: on a sheet of height 50, frame 2 of height 50 is out of range,
  and the error raised has not the code \<^verbatim>\<open>FRAME_EXTRACTION_ERROR\<close> (\<^verbatim>\<open>H5A302\<close>).
\<close>

theorem extractFrameByIndex_not_frame_extraction_error:
  "extractFrameByIndex (\<lambda>b. Some (Some 100, Some 50)) (\<lambda>b l t w h. None) [] 2
       \<lparr>optWidth = None, optHeight = 50\<rparr>
     = Inl (H5 \<lparr>code = WEBP_PROCESSING_ERROR, position = None, expectedType = None,
                missingFields = None\<rparr>)
   \<and> WEBP_PROCESSING_ERROR \<noteq> FRAME_EXTRACTION_ERROR
   \<and> codeString WEBP_PROCESSING_ERROR \<noteq> ''H5A302''"
  by (simp add: extractFrameByIndex_def createWebPProcessingError_def mkError_def)

subsection \<open>The legacy converter\<close>







subsection \<open>The encoder's validation\<close>

text \<open>
  Claim C8. \<^verbatim>\<open>encodeH5Animate\<close> with \<open>meta\<close> and \<open>spriteInfo\<close> both \<^verbatim>\<open>null\<close> and a
  Buffer as \<open>webpData\<close> raises one error: its code is \<^verbatim>\<open>VALIDATION_ERROR\<close>, and its
  \<open>missingFields\<close> are \<^verbatim>\<open>meta\<close> and \<^verbatim>\<open>spriteInfo\<close>.
\<close>

theorem encode_null_inputs_aggregated:
  "encodeH5Animate stringify garbage None None (Some webp)
     = Inl (H5 \<lparr>code = VALIDATION_ERROR, position = None, expectedType = None,
                missingFields = Some [''meta'', ''spriteInfo'']\<rparr>)"
  by (simp add: encodeH5Animate_def validateEncodeInput_def createValidationError_def
        mkError_def)

subsection \<open>The binary parser\<close>

text \<open>
  Claim C10. In every state a parser over the buffer \<open>b\<close> takes, the cursor is within
  \<open>0\<close> and the length of \<open>b\<close>. For a count \<open>n\<close> that is not negative, \<^verbatim>\<open>readBytes(n)\<close>
  and \<^verbatim>\<open>readString(n)\<close> throw the \<^verbatim>\<open>CORRUPTED_HEADER\<close> error that carries the cursor
  exactly when the cursor plus \<open>n\<close> is beyond the length of \<open>b\<close>; otherwise they return the
  \<open>n\<close> bytes of \<open>b\<close> from the cursor on and move the cursor by \<open>n\<close>.
  \<^verbatim>\<open>readUInt32LE\<close> does the same for four bytes.
\<close>

theorem BinaryParser_reads_bounded:
  assumes "reads b p" and "0 \<le> n"
  shows "buffer p = b \<and> 0 \<le> offset p \<and> offset p \<le> int (length b)
    \<and> (if offset p + n > int (length b)
        then readBytes p n
               = Inl (H5 ((mkError CORRUPTED_HEADER)\<lparr>position := Some (offset p)\<rparr>))
           \<and> readString p n
               = Inl (H5 ((mkError CORRUPTED_HEADER)\<lparr>position := Some (offset p)\<rparr>))
        else readBytes p n
               = Inr (take (nat n) (drop (nat (offset p)) b), p\<lparr>offset := offset p + n\<rparr>)
           \<and> readString p n
               = Inr (toStringAscii (take (nat n) (drop (nat (offset p)) b)),
                      p\<lparr>offset := offset p + n\<rparr>)
           \<and> length (take (nat n) (drop (nat (offset p)) b)) = nat n
           \<and> reads b (p\<lparr>offset := offset p + n\<rparr>))
    \<and> (if offset p + 4 > int (length b)
        then readUInt32LE p
               = Inl (H5 ((mkError CORRUPTED_HEADER)\<lparr>position := Some (offset p)\<rparr>))
        else (\<exists>v. readUInt32LE p = Inr (v, p\<lparr>offset := offset p + 4\<rparr>)
                  \<and> 0 \<le> v \<and> v < 4294967296)
             \<and> reads b (p\<lparr>offset := offset p + 4\<rparr>))"
proof -
  from reads_inv [OF assms(1)] have bp: "buffer p = b" and lo: "0 \<le> offset p"
    and hi: "offset p \<le> int (length b)" by simp_all
  have part1:
    "readBytes p n = Inl (H5 ((mkError CORRUPTED_HEADER)\<lparr>position := Some (offset p)\<rparr>))
     \<and> readString p n = Inl (H5 ((mkError CORRUPTED_HEADER)\<lparr>position := Some (offset p)\<rparr>))"
    if "offset p + n > int (length b)"
    using that bp by (simp add: readBytes_def readString_def checkBounds_def)
  have part2:
    "readBytes p n
       = Inr (take (nat n) (drop (nat (offset p)) b), p\<lparr>offset := offset p + n\<rparr>)
     \<and> readString p n
       = Inr (toStringAscii (take (nat n) (drop (nat (offset p)) b)),
              p\<lparr>offset := offset p + n\<rparr>)
     \<and> length (take (nat n) (drop (nat (offset p)) b)) = nat n
     \<and> reads b (p\<lparr>offset := offset p + n\<rparr>)"
    if le: "\<not> offset p + n > int (length b)"
  proof -
    from le have le': "offset p + n \<le> int (length b)" by simp
    have sub: "subarray b (offset p) (offset p + n) = take (nat n) (drop (nat (offset p)) b)"
      by (rule subarray_inside [OF lo assms(2) le'])
    have rb: "readBytes p n
        = Inr (take (nat n) (drop (nat (offset p)) b), p\<lparr>offset := offset p + n\<rparr>)"
      using le' bp sub by (simp add: readBytes_def checkBounds_def)
    have rs: "readString p n
        = Inr (toStringAscii (take (nat n) (drop (nat (offset p)) b)),
               p\<lparr>offset := offset p + n\<rparr>)"
      using le' bp sub by (simp add: readString_def checkBounds_def)
    from lo assms(2) le' have "nat n \<le> length b - nat (offset p)" by linarith
    then have ln: "length (take (nat n) (drop (nat (offset p)) b)) = nat n" by simp
    have "reads b (p\<lparr>offset := offset p + n\<rparr>)"
      by (rule reads.afterBytes [OF assms(1) assms(2) rb])
    with rb rs ln show ?thesis by simp
  qed
  have part3:
    "readUInt32LE p = Inl (H5 ((mkError CORRUPTED_HEADER)\<lparr>position := Some (offset p)\<rparr>))"
    if "offset p + 4 > int (length b)"
    using that bp by (simp add: readUInt32LE_def checkBounds_def)
  have part4:
    "(\<exists>v. readUInt32LE p = Inr (v, p\<lparr>offset := offset p + 4\<rparr>) \<and> 0 \<le> v \<and> v < 4294967296)
     \<and> reads b (p\<lparr>offset := offset p + 4\<rparr>)"
    if le: "\<not> offset p + 4 > int (length b)"
  proof -
    from le have le': "offset p + 4 \<le> int (length b)" by simp
    from getUint32_inside [OF lo le'] obtain v where g: "getUint32 b (offset p) = Inr v"
      and r: "0 \<le> v" "v < 4294967296" by blast
    have ru: "readUInt32LE p = Inr (v, p\<lparr>offset := offset p + 4\<rparr>)"
      using le' bp g by (simp add: readUInt32LE_def checkBounds_def)
    have "reads b (p\<lparr>offset := offset p + 4\<rparr>)"
      by (rule reads.afterUInt32 [OF assms(1) ru])
    with ru r show ?thesis by blast
  qed
  from bp lo hi part1 part2 part3 part4 show ?thesis by presburger
qed

theorem BinaryParser_reads_bounded_witness:
  "readBytes (newBinaryParser [1, 0, 0, 0, 2]) 4
     = Inr ([1, 0, 0, 0], \<lparr>buffer = [1, 0, 0, 0, 2], offset = 4\<rparr>)
   \<and> reads [1, 0, 0, 0, 2] \<lparr>buffer = [1, 0, 0, 0, 2], offset = 4\<rparr>
   \<and> readBytes (newBinaryParser [1, 0, 0, 0, 2]) 6
     = Inl (H5 \<lparr>code = CORRUPTED_HEADER, position = Some 0, expectedType = None,
                missingFields = None\<rparr>)"
  using BinaryParser_reads_bounded [OF reads.fresh [of "[1, 0, 0, 0, 2]"], of 4]
    BinaryParser_reads_bounded [OF reads.fresh [of "[1, 0, 0, 0, 2]"], of 6]
  by (simp add: newBinaryParser_def mkError_def)

subsection \<open>Auxiliary facts on the writer, the parser and the metadata\<close>

lemmas decoder_defs = decodeH5Animate_def parseHeader_def parseSpriteInfo_def readString_def
  readUInt32LE_def readBytes_def checkBounds_def newBinaryParser_def subarray_def clampIndex_def
  getUint32_def le32_def toStringAscii_def FILE_SIGNATURE_def getSpriteInfoSize_def
  convertArraysToObjects_def mkError_def Let_def char_of_eq_iff createInvalidMetadataError_def
  createInvalidSignatureError_def

lemma readString4:
  "readString (newBinaryParser buf) 4 =
     (if length buf < 4 then Inl (H5 ((mkError CORRUPTED_HEADER)\<lparr>position := Some 0\<rparr>))
      else Inr (toStringAscii (take 4 buf), \<lparr>buffer = buf, offset = 4\<rparr>))"
  by (auto simp add: readString_def checkBounds_def newBinaryParser_def subarray_def clampIndex_def Let_def min_def)

lemma inj_ascii: "inj (\<lambda>b :: byte. char_of (unat b))"
proof (rule injI)
  fix x y :: byte
  assume "char_of (unat x) = char_of (unat y)"
  then have "(of_char (char_of (unat x)) :: nat) = of_char (char_of (unat y))" by simp
  then have "unat x mod 256 = unat y mod 256" by (simp only: of_char_of)
  moreover have "unat x < 256" "unat y < 256"
    using unsigned_less [of x, where 'a = nat] unsigned_less [of y, where 'a = nat] by simp_all
  ultimately have "unat x = unat y" by simp
  then show "x = y" by (simp only: word_unat_eq_iff)
qed

lemma toStringAscii_ANIM:
  "toStringAscii bs = ''ANIM'' \<longleftrightarrow> map (\<lambda>b. b AND 0x7F) bs = [0x41, 0x4E, 0x49, 0x4D]"
proof -
  have a: "toStringAscii bs = map (\<lambda>b. char_of (unat b)) (map (\<lambda>b. b AND 0x7F) bs)"
    by (simp add: toStringAscii_def)
  have b: "map (\<lambda>b :: byte. char_of (unat b)) [0x41, 0x4E, 0x49, 0x4D] = ''ANIM''"
    by (simp add: char_of_eq_iff)
  show ?thesis unfolding a b [symmetric] by (rule inj_map_eq_map [OF inj_ascii])
qed


lemma le32_u32: 
  assumes "0 \<le> v" "v < 4294967296"
  shows "le32 (of_int v) (of_int (v div 256)) (of_int (v div 65536)) (of_int (v div 16777216)) = v"
proof -
  have u: "\<And>x. uint (of_int x :: byte) = x mod 256"
    by (simp add: uint_word_of_int)
  have a: "v div 65536 = (v div 256) div 256" and b: "v div 16777216 = ((v div 256) div 256) div 256"
    by (simp_all add: div_mult2_eq [symmetric])
  from assms have c: "((v div 256) div 256) div 256 < 256" by simp
  from assms have d: "0 \<le> ((v div 256) div 256) div 256" by simp
  define q1 where "q1 = v div 256"
  define q2 where "q2 = q1 div 256"
  define q3 where "q3 = q2 div 256"
  have e: "q3 mod 256 = q3" using c d by (simp add: q1_def q2_def q3_def)
  have "v = v mod 256 + 256 * q1" by (simp add: q1_def)
  moreover have "q1 = q1 mod 256 + 256 * q2" by (simp add: q2_def)
  moreover have "q2 = q2 mod 256 + 256 * q3" by (simp add: q3_def)
  ultimately have "v = v mod 256 + 256 * (q1 mod 256) + 65536 * (q2 mod 256) + 16777216 * q3"
    by linarith
  then show ?thesis
    unfolding le32_def u a b using e by (simp add: q1_def q2_def q3_def)
qed

lemma getUint32_u32Bytes:
  assumes "0 \<le> v" "v < 4294967296" "take 4 (drop k b) = u32Bytes v"
  shows "getUint32 b (int k) = Inr v"
  using assms(3) le32_u32 [OF assms(1,2)] by (simp add: getUint32_def u32Bytes_def)

lemma length_u32Bytes: "length (u32Bytes v) = 4"
  by (simp add: u32Bytes_def)

lemma putBytes_length [simp]: "pos \<le> length buf \<Longrightarrow> length (putBytes buf pos bs) = length buf"
  by (simp add: putBytes_def min_def)


lemma putBytes_exact:
  "length bs \<le> length rest \<Longrightarrow>
   putBytes (pre @ rest) (length pre) bs = pre @ bs @ drop (length bs) rest"
  by (simp add: putBytes_def)


lemma writeUInt32LE_Inr:
  "writeUInt32LE w v = Inr w' \<Longrightarrow>
   0 \<le> v \<and> v \<le> 4294967295 \<and> woffset w + 4 \<le> length (wbuffer w)
   \<and> w' = \<lparr>wbuffer = putBytes (wbuffer w) (woffset w) (u32Bytes \<lfloor>v\<rfloor>),
           woffset = woffset w + 4\<rparr>"
  by (auto simp add: writeUInt32LE_def split: if_splits)




lemma validate_typed:
  "validateEncodeInput m si webp = Inr u \<Longrightarrow> \<exists>mt sinfo wb. typedArgs m si webp = Some (mt, sinfo, wb)"
  apply (cases m; cases si; cases webp)
  apply (auto simp add: validateEncodeInput_def typedArgs_def Let_def split: if_splits)
  subgoal for ma sa b
    by (cases "argRatio ma"; cases "argFrame ma"; cases "argCount sa"; cases "argDimensions sa") auto
  done

lemma writeUInt32LE_Inl: "writeUInt32LE w v = Inl e \<Longrightarrow> e = RangeError"
  by (auto simp add: writeUInt32LE_def split: if_splits)

lemma writeDimensions_Inl: "writeDimensions w ds = Inl e \<Longrightarrow> e = RangeError"
proof (induction ds arbitrary: w)
  case Nil
  then show ?case by simp
next
  case (Cons d ds)
  then show ?case
    by (auto simp add: andThen_def split: sum.splits dest: writeUInt32LE_Inl)
qed

lemma encode_Inl:
  assumes "validateEncodeInput m si webp = Inr u"
    and "encodeH5Animate stringify garbage m si webp = Inl e"
  shows "e = RangeError"
proof -
  from validate_typed [OF assms(1)] obtain mt sinfo wb
    where t: "typedArgs m si webp = Some (mt, sinfo, wb)" by blast
  from assms t show ?thesis
    by (auto simp add: encodeH5Animate_def andThen_def Let_def newBinaryWriter_def writeString_def
        split: sum.splits if_splits dest: writeUInt32LE_Inl writeDimensions_Inl)
qed

lemma writeDimensions_range:
  "writeDimensions w ds = Inr w' \<Longrightarrow>
   list_all (\<lambda>d. 0 \<le> width d \<and> width d \<le> 4294967295 \<and> 0 \<le> height d \<and> height d \<le> 4294967295) ds"
proof (induction ds arbitrary: w)
  case Nil
  then show ?case by simp
next
  case (Cons d ds)
  from Cons.prems obtain w1 w2 where a: "writeUInt32LE w (of_int (width d)) = Inr w1"
    and b: "writeUInt32LE w1 (of_int (height d)) = Inr w2" and c: "writeDimensions w2 ds = Inr w'"
    by (auto simp add: andThen_def split: sum.splits)
  from writeUInt32LE_Inr [OF a] writeUInt32LE_Inr [OF b] Cons.IH [OF c]
  show ?case by simp
qed

lemma encode_Inr_range:
  assumes "encodeH5Animate stringify garbage m si webp = Inr buf"
    and "typedArgs m si webp = Some (mt, sinfo, wb)"
  shows "list_all (\<lambda>d. 0 \<le> width d \<and> width d \<le> 4294967295
                       \<and> 0 \<le> height d \<and> height d \<le> 4294967295) (dimensions sinfo)
     \<and> 0 \<le> count sinfo \<and> count sinfo \<le> 4294967295
     \<and> 4 + 8 * count sinfo + of_nat (length wb) \<le> 4294967295"
  using assms
  by (auto simp add: encodeH5Animate_def andThen_def Let_def getSpriteInfoSize_def
        split: sum.splits dest: writeUInt32LE_Inr writeDimensions_range)

lemma asSound_soundTree: "asSound (soundTree s) = Some s"
  by (cases "volume s"; cases "pitch s")
     (simp_all add: asSound_def soundTree_def propOf_def asOptional_def)

lemma allSome_map: "(\<And>x. x \<in> set xs \<Longrightarrow> g (f x) = Some (h x)) \<Longrightarrow> allSome (map g (map f xs)) = Some (map h xs)"
  by (induction xs) simp_all

lemma allSome_sounds: "allSome (map (asSound \<circ> soundTree) ss) = Some ss"
  by (induction ss) (simp_all add: asSound_soundTree)

lemma asArray_sounds: "asArray asSound (JArr (map soundTree ss)) = Some ss"
  by (simp add: allSome_sounds)

lemma convertArrayToObject_roundtrip:
  "\<exists>X. convertArrayToObject (JArr (map JNum (convertObjectToArray obj))) = Inr X
       \<and> asObject X = Some (normalizeObject obj)"
  by (simp add: convertArrayToObject_def convertObjectToArray_def asObject_def propOf_def
        orElse_def nullish_def asOptional_def normalizeObject_def)

lemma traverse_ex:
  "(\<And>x. x \<in> set xs \<Longrightarrow> \<exists>y. f (t x) = Inr y \<and> g y = Some (h x)) \<Longrightarrow>
   \<exists>ys. traverse f (map t xs) = Inr ys \<and> allSome (map g ys) = Some (map h xs)"
proof (induction xs)
  case Nil
  show ?case by simp
next
  case (Cons x xs)
  from Cons.prems [of x] obtain y where y: "f (t x) = Inr y" "g y = Some (h x)" by auto
  from Cons.IH Cons.prems obtain ys
    where ys: "traverse f (map t xs) = Inr ys" "allSome (map g ys) = Some (map h xs)"
    by auto
  from y ys show ?case by simp
qed

lemma objects_roundtrip:
  "\<exists>X. callMap (metaReplacer os) convertArrayToObject = Inr X
       \<and> asArray asObject X = Some (map normalizeObject os)"
proof -
  have "\<exists>ys. traverse convertArrayToObject
                (map (\<lambda>obj. JArr (map JNum (convertObjectToArray obj))) os) = Inr ys
      \<and> allSome (map asObject ys) = Some (map normalizeObject os)"
    by (rule traverse_ex) (rule convertArrayToObject_roundtrip)
  then show ?thesis by (auto simp add: metaReplacer_def)
qed

lemma metaReplacer_not_nullish: "\<not> nullish (metaReplacer os)"
  by (simp add: metaReplacer_def nullish_def)

lemma frame_roundtrip:
  "\<exists>X. convertFrameArrays (frameTree f) = Inr X \<and> asFrame X = Some (normalizeFrame f)"
proof -
  from objects_roundtrip obtain X where
    X: "\<And>os. callMap (metaReplacer os) convertArrayToObject = Inr (X os)
           \<and> asArray asObject (X os) = Some (map normalizeObject os)"
    by metis
  have nu: "\<And>os. X os \<noteq> JUndefined"
  proof -
    fix os
    from X [of os] show "X os \<noteq> JUndefined" by (auto simp add: metaReplacer_def)
  qed
  show ?thesis
  proof (cases "sound f")
    case None
    note sn = None
    show ?thesis
    proof (cases "objects f")
      case None
      with sn show ?thesis
        by (simp add: convertFrameArrays_def frameTree_def nullish_def asFrame_def propOf_def
              asOptional_def normalizeFrame_def)
    next
      case (Some os)
      with sn X [of os] nu [of os] show ?thesis
        by (simp add: convertFrameArrays_def frameTree_def metaReplacer_not_nullish asFrame_def
              propOf_def asOptional_def normalizeFrame_def)
    qed
  next
    case (Some ss)
    note sn = Some
    show ?thesis
    proof (cases "objects f")
      case None
      with sn show ?thesis
        by (simp add: convertFrameArrays_def frameTree_def nullish_def asFrame_def propOf_def
              asOptional_def normalizeFrame_def allSome_sounds)
    next
      case (Some os)
      with sn X [of os] nu [of os] show ?thesis
        by (simp add: convertFrameArrays_def frameTree_def metaReplacer_not_nullish asFrame_def
              propOf_def asOptional_def normalizeFrame_def allSome_sounds)
    qed
  qed
qed

lemma meta_roundtrip:
  "\<exists>X. convertArraysToObjects (metaTree m) = Inr X \<and> asMeta X = Some (normalizeMeta m)"
proof -
  have "\<exists>ys. traverse convertFrameArrays (map frameTree (frame m)) = Inr ys
      \<and> allSome (map asFrame ys) = Some (map normalizeFrame (frame m))"
    by (rule traverse_ex) (rule frame_roundtrip)
  then obtain ys where ys: "traverse convertFrameArrays (map frameTree (frame m)) = Inr ys"
      "allSome (map asFrame ys) = Some (map normalizeFrame (frame m))" by blast
  then show ?thesis
    by (simp add: convertArraysToObjects_def metaTree_def asMeta_def propOf_def normalizeMeta_def)
qed

lemma writeUInt32LE_written:
  assumes "0 \<le> v" "v \<le> 4294967295" "length pre + 4 \<le> length g"
  shows "writeUInt32LE \<lparr>wbuffer = pre @ drop (length pre) g, woffset = length pre\<rparr> (of_int v)
     = Inr \<lparr>wbuffer = (pre @ u32Bytes v) @ drop (length (pre @ u32Bytes v)) g,
            woffset = length (pre @ u32Bytes v)\<rparr>"
proof -
  from assms(3) have "length (u32Bytes v) \<le> length (drop (length pre) g)"
    by (simp add: length_u32Bytes)
  from putBytes_exact [OF this, of pre] assms show ?thesis
    by (simp add: writeUInt32LE_def length_u32Bytes add.commute)
qed

lemma writeString_written:
  assumes "length pre + length s \<le> length g"
  shows "writeString \<lparr>wbuffer = pre @ drop (length pre) g, woffset = length pre\<rparr> s
     = Inr \<lparr>wbuffer = (pre @ map of_char s) @ drop (length (pre @ map of_char s)) g,
            woffset = length (pre @ map of_char s)\<rparr>"
proof -
  from assms have "length (map of_char s :: Buffer) \<le> length (drop (length pre) g)" by simp
  from putBytes_exact [OF this, of pre] assms show ?thesis
    by (simp add: writeString_def Let_def min_absorb1 add.commute)
qed

lemma writeBuffer_written:
  assumes "length pre + length src \<le> length g"
  shows "writeBuffer \<lparr>wbuffer = pre @ drop (length pre) g, woffset = length pre\<rparr> src
     = \<lparr>wbuffer = (pre @ src) @ drop (length (pre @ src)) g, woffset = length (pre @ src)\<rparr>"
proof (cases "length pre < length g")
  case True
  from assms have "length src \<le> length (drop (length pre) g)" by simp
  from putBytes_exact [OF this, of pre] True show ?thesis
    by (simp add: writeBuffer_def add.commute)
next
  case False
  with assms have "length src = 0" "length pre = length g" by linarith+
  then show ?thesis by (simp add: writeBuffer_def)
qed

lemma writeDimensions_written:
  assumes "list_all (\<lambda>d. 0 \<le> width d \<and> width d \<le> 4294967295
                       \<and> 0 \<le> height d \<and> height d \<le> 4294967295) ds"
    and "length pre + 8 * length ds \<le> length g"
  shows "writeDimensions \<lparr>wbuffer = pre @ drop (length pre) g, woffset = length pre\<rparr> ds
     = Inr \<lparr>wbuffer = (pre @ concat (map (\<lambda>d. u32Bytes (width d) @ u32Bytes (height d)) ds))
                      @ drop (length (pre @ concat (map (\<lambda>d. u32Bytes (width d) @ u32Bytes (height d)) ds))) g,
            woffset = length (pre @ concat (map (\<lambda>d. u32Bytes (width d) @ u32Bytes (height d)) ds))\<rparr>"
  using assms
proof (induction ds arbitrary: pre)
  case Nil
  then show ?case by simp
next
  case (Cons d ds)
  from Cons.prems have r: "0 \<le> width d" "width d \<le> 4294967295" "0 \<le> height d" "height d \<le> 4294967295"
    and rest: "list_all (\<lambda>d. 0 \<le> width d \<and> width d \<le> 4294967295
                       \<and> 0 \<le> height d \<and> height d \<le> 4294967295) ds"
    and len: "length pre + 8 + 8 * length ds \<le> length g" by simp_all
  from len have l1: "length pre + 4 \<le> length g" by simp
  from len have l2: "length (pre @ u32Bytes (width d)) + 4 \<le> length g"
    by (simp add: length_u32Bytes)
  from len have l3: "length ((pre @ u32Bytes (width d)) @ u32Bytes (height d)) + 8 * length ds \<le> length g"
    by (simp add: length_u32Bytes)
  show ?case
    apply (simp only: writeDimensions.simps)
    apply (simp only: writeUInt32LE_written [OF r(1,2) l1] andThen_simps)
    apply (simp only: writeUInt32LE_written [OF r(3,4) l2] andThen_simps)
    apply (simp only: Cons.IH [OF rest l3])
    apply simp
    done
qed


lemma length_dimBytes:
  "length (concat (map (\<lambda>d. u32Bytes (width d) @ u32Bytes (height d)) ds)) = 8 * length ds"
  by (induction ds) (simp_all add: length_u32Bytes)

lemma validate_typed_ok:
  "validateEncodeInput (metaArg m) (spriteInfoArg si) (Some webp) = Inr ()"
  "typedArgs (metaArg m) (spriteInfoArg si) (Some webp)
     = Some (m, \<lparr>count = of_int (count si), dimensions = dimensions si\<rparr>, webp)"
  by (simp_all add: validateEncodeInput_def typedArgs_def metaArg_def spriteInfoArg_def)

lemma encode_exact:
  assumes cnt: "count si = int (length (dimensions si))"
    and dims: "list_all (\<lambda>d. 0 \<le> width d \<and> width d \<le> 4294967295
                       \<and> 0 \<le> height d \<and> height d \<le> 4294967295) (dimensions si)"
    and size: "4 + 8 * count si + int (length webp) \<le> 4294967295"
    and msize: "int (length (stringify (metaTree m))) \<le> 4294967295"
  shows "encodeH5Animate stringify garbage (metaArg m) (spriteInfoArg si) (Some webp)
    = Inr (map of_char FILE_SIGNATURE @ u32Bytes 1
           @ u32Bytes (4 + 8 * count si + int (length webp))
           @ u32Bytes (int (length (stringify (metaTree m))))
           @ u32Bytes (count si)
           @ concat (map (\<lambda>d. u32Bytes (width d) @ u32Bytes (height d)) (dimensions si))
           @ webp @ stringify (metaTree m))"
proof -
  define mb where "mb = stringify (metaTree m)"
  define sinfo :: "rat SpriteInfo"
    where "sinfo = \<lparr>count = of_int (count si), dimensions = dimensions si\<rparr>"
  define total where "total = 4 + 8 * count si + int (length webp)"
  define totalSize where "totalSize = 16 + total + int (length mb)"
  define db where "db = concat (map (\<lambda>d. u32Bytes (width d) @ u32Bytes (height d)) (dimensions si))"
  have ldb: "length db = 8 * length (dimensions si)"
    unfolding db_def by (rule length_dimBytes)
  have tot: "total = 4 + 8 * int (length (dimensions si)) + int (length webp)"
    by (simp add: total_def cnt)
  have ts0: "0 \<le> totalSize" by (simp add: totalSize_def tot)
  have tr: "getSpriteInfoSize sinfo + of_nat (length webp) = (of_int total :: rat)"
    by (simp add: total_def sinfo_def getSpriteInfoSize_def)
  have tsr: "16 + (of_int total :: rat) + of_int (int (length mb)) = of_int totalSize"
    by (simp add: totalSize_def)
  have cs: "count sinfo = of_int (count si)" "dimensions sinfo = dimensions si"
    by (simp_all add: sinfo_def)
  define g where "g = map garbage [0..<nat totalSize]"
  have lg: "length g = 20 + 8 * length (dimensions si) + length webp + length mb"
    unfolding g_def totalSize_def tot by simp
  define p1 :: Buffer where "p1 = map of_char FILE_SIGNATURE"
  define p2 where "p2 = p1 @ u32Bytes CURRENT_VERSION"
  define p3 where "p3 = p2 @ u32Bytes total"
  define p4 where "p4 = p3 @ u32Bytes (int (length mb))"
  define p5 where "p5 = p4 @ u32Bytes (count si)"
  define p6 where "p6 = p5 @ db"
  define p7 where "p7 = p6 @ webp"
  define p8 where "p8 = p7 @ mb"
  define st where "st = (\<lambda>pre. \<lparr>wbuffer = pre @ drop (length pre) g, woffset = length pre\<rparr>)"
  have l1: "length p1 = 4" by (simp add: p1_def FILE_SIGNATURE_def)
  have l2: "length p2 = 8" by (simp add: p2_def l1 length_u32Bytes)
  have l3: "length p3 = 12" by (simp add: p3_def l2 length_u32Bytes)
  have l4: "length p4 = 16" by (simp add: p4_def l3 length_u32Bytes)
  have l5: "length p5 = 20" by (simp add: p5_def l4 length_u32Bytes)
  have l6: "length p6 = 20 + 8 * length (dimensions si)" by (simp add: p6_def l5 ldb)
  have l7: "length p7 = 20 + 8 * length (dimensions si) + length webp" by (simp add: p7_def l6)
  have l8: "length p8 = length g" by (simp add: p8_def l7 lg)
  have s0: "newBinaryWriter garbage (of_int totalSize) = Inr (st [])"
    using ts0 by (simp add: newBinaryWriter_def st_def g_def)
  have s1: "writeString (st []) FILE_SIGNATURE = Inr (st p1)"
    unfolding st_def p1_def
    using writeString_written [of "[]" FILE_SIGNATURE g] lg
    by (simp add: FILE_SIGNATURE_def)
  have s2: "writeUInt32LE (st p1) (of_int CURRENT_VERSION) = Inr (st p2)"
    unfolding st_def p2_def
    by (rule writeUInt32LE_written) (simp_all add: CURRENT_VERSION_def l1 lg)
  have s3: "writeUInt32LE (st p2) (of_int total) = Inr (st p3)"
    unfolding st_def p3_def
    using size by (intro writeUInt32LE_written) (simp_all add: tot cnt l2 lg)
  have s4: "writeUInt32LE (st p3) (of_int (int (length mb))) = Inr (st p4)"
    unfolding st_def p4_def
    using msize by (intro writeUInt32LE_written) (simp_all add: mb_def l3 lg)
  have s5: "writeUInt32LE (st p4) (of_int (count si)) = Inr (st p5)"
    unfolding st_def p5_def
    using size by (intro writeUInt32LE_written) (simp_all add: cnt l4 lg)
  have s6: "writeDimensions (st p5) (dimensions si) = Inr (st p6)"
    unfolding st_def p6_def db_def
    by (rule writeDimensions_written [OF dims]) (simp add: l5 lg)
  have s7: "writeBuffer (st p6) webp = st p7"
    unfolding st_def p7_def
    by (rule writeBuffer_written) (simp add: l6 lg)
  have s8: "writeBuffer (st p7) mb = st p8"
    unfolding st_def p8_def
    by (rule writeBuffer_written) (simp add: l7 lg)
  have gb: "getBuffer (st p8) = p8"
    by (simp add: getBuffer_def st_def l8)
  have nat_int: "(of_nat (length mb) :: rat) = of_int (int (length mb))" by simp
  have "encodeH5Animate stringify garbage (metaArg m) (spriteInfoArg si) (Some webp) = Inr p8"
    unfolding encodeH5Animate_def validate_typed_ok
    by (simp only: andThen_simps option.case prod.case Let_def mb_def [symmetric]
          sinfo_def [symmetric] tr tsr cs nat_int s0 s1 s2 s3 s4 s5 s6 s7 s8 gb)
  then show ?thesis
    by (simp add: p8_def p7_def p6_def p5_def p4_def p3_def p2_def p1_def db_def mb_def tot cnt
          CURRENT_VERSION_def)
qed


lemma drop_app: "drop k b = xs @ rest \<Longrightarrow> drop (k + length xs) b = rest"
proof -
  assume a: "drop k b = xs @ rest"
  have "drop (k + length xs) b = drop (length xs) (drop k b)" by (simp add: add.commute)
  with a show ?thesis by simp
qed

lemma drop_app_le: "drop k b = xs @ rest \<Longrightarrow> k \<le> length b \<Longrightarrow> k + length xs \<le> length b"
proof -
  assume a: "drop k b = xs @ rest" and b: "k \<le> length b"
  from a have "length (drop k b) = length xs + length rest" by simp
  with b show ?thesis by simp
qed

lemma readUInt32LE_drop:
  assumes "drop k b = u32Bytes v @ rest" "0 \<le> v" "v \<le> 4294967295" "k \<le> length b"
  shows "readUInt32LE \<lparr>buffer = b, offset = int k\<rparr> = Inr (v, \<lparr>buffer = b, offset = int (k + 4)\<rparr>)"
proof -
  from drop_app_le [OF assms(1,4)] have le: "k + 4 \<le> length b" by (simp add: length_u32Bytes)
  from assms(1) have "take 4 (drop k b) = u32Bytes v" by (simp add: length_u32Bytes)
  from getUint32_u32Bytes [OF assms(2) _ this] assms(3) have "getUint32 b (int k) = Inr v" by simp
  with le show ?thesis by (simp add: readUInt32LE_def checkBounds_def)
qed

lemma readBytes_drop:
  assumes "drop k b = bs @ rest" "k \<le> length b"
  shows "readBytes \<lparr>buffer = b, offset = int k\<rparr> (int (length bs))
     = Inr (bs, \<lparr>buffer = b, offset = int (k + length bs)\<rparr>)"
proof -
  from drop_app_le [OF assms] have le: "k + length bs \<le> length b" .
  then have "subarray b (int k) (int k + int (length bs)) = take (nat (int (length bs))) (drop (nat (int k)) b)"
    by (intro subarray_inside) simp_all
  with assms(1) have "subarray b (int k) (int k + int (length bs)) = bs" by simp
  with le show ?thesis by (simp add: readBytes_def checkBounds_def)
qed

lemma toStringAscii_sig: "toStringAscii (map of_char ''ANIM'') = ''ANIM''"
  by (simp add: toStringAscii_def char_of_eq_iff)

lemma readString_sig:
  assumes "b = map of_char ''ANIM'' @ rest"
  shows "readString (newBinaryParser b) 4 = Inr (''ANIM'', \<lparr>buffer = b, offset = int 4\<rparr>)"
proof -
  from assms have "take 4 b = map of_char ''ANIM''" by simp
  with assms show ?thesis
    by (simp only: readString4 toStringAscii_sig) simp
qed

lemma readDimensions_drop:
  assumes "drop k b = concat (map (\<lambda>d. u32Bytes (width d) @ u32Bytes (height d)) ds) @ rest"
    and "list_all (\<lambda>d. 0 \<le> width d \<and> width d \<le> 4294967295
                       \<and> 0 \<le> height d \<and> height d \<le> 4294967295) ds"
    and "k \<le> length b"
  shows "readDimensions (length ds) \<lparr>buffer = b, offset = int k\<rparr>
     = Inr (ds, \<lparr>buffer = b, offset = int (k + 8 * length ds)\<rparr>)"
  using assms
proof (induction ds arbitrary: k)
  case Nil
  then show ?case by simp
next
  case (Cons d ds)
  from Cons.prems(2) have r: "0 \<le> width d" "width d \<le> 4294967295" "0 \<le> height d" "height d \<le> 4294967295"
    and rs: "list_all (\<lambda>d. 0 \<le> width d \<and> width d \<le> 4294967295
                       \<and> 0 \<le> height d \<and> height d \<le> 4294967295) ds" by simp_all
  from Cons.prems(1) have d1: "drop k b = u32Bytes (width d) @ (u32Bytes (height d)
        @ concat (map (\<lambda>d. u32Bytes (width d) @ u32Bytes (height d)) ds) @ rest)" by simp
  from drop_app [OF d1] have d2: "drop (k + 4) b = u32Bytes (height d)
        @ (concat (map (\<lambda>d. u32Bytes (width d) @ u32Bytes (height d)) ds) @ rest)"
    by (simp add: length_u32Bytes)
  from drop_app [OF d2] have d3: "drop (k + 4 + 4) b
       = concat (map (\<lambda>d. u32Bytes (width d) @ u32Bytes (height d)) ds) @ rest"
    by (simp add: length_u32Bytes)
  from drop_app_le [OF d1 Cons.prems(3)] have k1: "k + 4 \<le> length b" by (simp add: length_u32Bytes)
  from drop_app_le [OF d2 k1] have k2: "k + 4 + 4 \<le> length b" by (simp add: length_u32Bytes)
  have e1: "readUInt32LE \<lparr>buffer = b, offset = int k\<rparr> = Inr (width d, \<lparr>buffer = b, offset = int (k + 4)\<rparr>)"
    by (rule readUInt32LE_drop [OF d1 r(1,2) Cons.prems(3)])
  have e2: "readUInt32LE \<lparr>buffer = b, offset = int (k + 4)\<rparr> = Inr (height d, \<lparr>buffer = b, offset = int (k + 4 + 4)\<rparr>)"
    by (rule readUInt32LE_drop [OF d2 r(3,4) k1])
  have e3: "readDimensions (length ds) \<lparr>buffer = b, offset = int (k + 4 + 4)\<rparr>
     = Inr (ds, \<lparr>buffer = b, offset = int (k + 4 + 4 + 8 * length ds)\<rparr>)"
    by (rule Cons.IH [OF d3 rs k2])
  have "readDimensions (Suc (length ds)) \<lparr>buffer = b, offset = int k\<rparr>
     = Inr (d # ds, \<lparr>buffer = b, offset = int (k + 4 + 4 + 8 * length ds)\<rparr>)"
    by (simp only: readDimensions.simps e1 e2 e3 andThen_simps prod.case) simp
  then show ?case by (simp add: algebra_simps)
qed


lemma drop_app_n: "drop k b = xs @ rest \<Longrightarrow> length xs = n \<Longrightarrow> drop (k + n) b = rest"
  using drop_app [of k b xs rest] by simp

lemma decode_exact:
  assumes cnt: "count si = int (length (dimensions si))"
    and dims: "list_all (\<lambda>d. 0 \<le> width d \<and> width d \<le> 4294967295
                       \<and> 0 \<le> height d \<and> height d \<le> 4294967295) (dimensions si)"
    and size: "4 + 8 * count si + int (length webp) \<le> 4294967295"
    and msize: "int (length mb) \<le> 4294967295"
  shows "decodeH5Animate parse
           (map of_char FILE_SIGNATURE @ u32Bytes 1
            @ u32Bytes (4 + 8 * count si + int (length webp))
            @ u32Bytes (int (length mb))
            @ u32Bytes (count si)
            @ concat (map (\<lambda>d. u32Bytes (width d) @ u32Bytes (height d)) (dimensions si))
            @ webp @ mb)
    = (case parse mb of
         None \<Rightarrow> Inl (H5 (createInvalidMetadataError None))
       | Some rawMeta \<Rightarrow>
           andThen (convertArraysToObjects rawMeta) (\<lambda>x.
           Inr \<lparr>meta = x, spriteInfo = si, webpData = webp\<rparr>))"
proof -
  define db where "db = concat (map (\<lambda>d. u32Bytes (width d) @ u32Bytes (height d)) (dimensions si))"
  define total where "total = 4 + 8 * count si + int (length webp)"
  define n where "n = length (dimensions si)"
  define r5 where "r5 = db @ webp @ mb"
  define r4 where "r4 = u32Bytes (count si) @ r5"
  define r3 where "r3 = u32Bytes (int (length mb)) @ r4"
  define r2 where "r2 = u32Bytes total @ r3"
  define r1 where "r1 = u32Bytes 1 @ r2"
  define b where "b = map of_char ''ANIM'' @ r1"
  have ldb: "length db = 8 * n" unfolding db_def n_def by (rule length_dimBytes)
  have c0: "0 \<le> count si" "count si \<le> 4294967295" "0 \<le> total"
    using cnt size by (simp_all add: total_def)
  have lb: "length b = 20 + 8 * n + length webp + length mb"
    by (simp add: b_def r1_def r2_def r3_def r4_def r5_def length_u32Bytes ldb)
  have d0: "drop 0 b = map of_char ''ANIM'' @ r1" by (simp add: b_def)
  have d4: "drop 4 b = u32Bytes 1 @ r2" by (simp add: b_def r1_def)
  from drop_app_n [OF d4, of 4] have d8: "drop 8 b = u32Bytes total @ r3"
    by (simp add: r2_def length_u32Bytes)
  from drop_app_n [OF d8, of 4] have d12: "drop 12 b = u32Bytes (int (length mb)) @ r4"
    by (simp add: r3_def length_u32Bytes)
  from drop_app_n [OF d12, of 4] have d16: "drop 16 b = u32Bytes (count si) @ r5"
    by (simp add: r4_def length_u32Bytes)
  from drop_app_n [OF d16, of 4] have d20: "drop 20 b = db @ (webp @ mb)"
    by (simp add: r5_def length_u32Bytes)
  from drop_app_n [OF d20, of "8 * n"] have dw: "drop (20 + 8 * n) b = webp @ mb"
    by (simp add: ldb)
  from drop_app_n [OF dw, of "length webp"] have dm: "drop (20 + 8 * n + length webp) b = mb @ []"
    by simp
  have e0: "readString (newBinaryParser b) 4 = Inr (''ANIM'', \<lparr>buffer = b, offset = 4\<rparr>)"
    using readString_sig [of b r1] by (simp add: b_def)
  have e1: "readUInt32LE \<lparr>buffer = b, offset = 4\<rparr> = Inr (1, \<lparr>buffer = b, offset = 8\<rparr>)"
    using readUInt32LE_drop [OF d4] lb by simp
  have e2: "readUInt32LE \<lparr>buffer = b, offset = 8\<rparr> = Inr (total, \<lparr>buffer = b, offset = 12\<rparr>)"
    using readUInt32LE_drop [OF d8 c0(3)] size lb by (simp add: total_def)
  have e3: "readUInt32LE \<lparr>buffer = b, offset = 12\<rparr>
      = Inr (int (length mb), \<lparr>buffer = b, offset = 16\<rparr>)"
    using readUInt32LE_drop [OF d12 _ msize] lb by simp
  have e4: "readUInt32LE \<lparr>buffer = b, offset = 16\<rparr>
      = Inr (count si, \<lparr>buffer = b, offset = 20\<rparr>)"
    using readUInt32LE_drop [OF d16 c0(1,2)] lb by simp
  have e5: "readDimensions n \<lparr>buffer = b, offset = 20\<rparr>
      = Inr (dimensions si, \<lparr>buffer = b, offset = 20 + 8 * int n\<rparr>)"
    using readDimensions_drop [OF d20 [unfolded db_def] dims] lb by (simp add: n_def)
  have e6: "readBytes \<lparr>buffer = b, offset = 20 + 8 * int n\<rparr> (int (length webp))
      = Inr (webp, \<lparr>buffer = b, offset = 20 + 8 * int n + int (length webp)\<rparr>)"
    using readBytes_drop [OF dw] lb by simp
  have e7: "readBytes \<lparr>buffer = b, offset = 20 + 8 * int n + int (length webp)\<rparr>
        (int (length mb))
      = Inr (mb, \<lparr>buffer = b,
                  offset = 20 + 8 * int n + int (length webp) + int (length mb)\<rparr>)"
    using readBytes_drop [OF dm] lb by simp
  have hd: "parseHeader (newBinaryParser b)
      = Inr (\<lparr>signature = ''ANIM'', version = 1, imageDataSize = total,
               metaDataSize = int (length mb)\<rparr>, \<lparr>buffer = b, offset = 16\<rparr>)"
    by (simp add: parseHeader_def e0 e1 e2 e3 FILE_SIGNATURE_def)
  have nc: "nat (count si) = n" by (simp add: cnt n_def)
  have sp: "parseSpriteInfo \<lparr>buffer = b, offset = 16\<rparr>
      = Inr (si, \<lparr>buffer = b, offset = 20 + 8 * int n\<rparr>)"
    by (simp add: parseSpriteInfo_def e4 nc e5)
  have ws: "total - getSpriteInfoSize si = int (length webp)"
    by (simp add: total_def getSpriteInfoSize_def)
  have "decodeH5Animate parse b
    = (case parse mb of
         None \<Rightarrow> Inl (H5 (createInvalidMetadataError None))
       | Some rawMeta \<Rightarrow>
           andThen (convertArraysToObjects rawMeta) (\<lambda>x.
           Inr \<lparr>meta = x, spriteInfo = si, webpData = webp\<rparr>))"
    by (simp add: decodeH5Animate_def hd sp ws e6 e7 Let_def)
  then show ?thesis
    by (simp add: b_def r1_def r2_def r3_def r4_def r5_def db_def total_def FILE_SIGNATURE_def)
qed

lemma getUint32_range: "getUint32 b i = Inr v \<Longrightarrow> 0 \<le> v \<and> v < 4294967296"
  using le32_range
  by (auto simp add: getUint32_def split: if_splits list.splits)

subsection \<open>The encoder\<close>





text \<open>
  Claim C6 fails on the code. A sprite dimension of width \<open>-1\<close> passes
  \<^verbatim>\<open>validateEncodeInput\<close>, and \<^verbatim>\<open>writeUInt32LE\<close> then throws the platform's
  \<^verbatim>\<open>RangeError\<close>, which is no \<^verbatim>\<open>H5AnimateError\<close>. Metadata that is the JSON text
  \<^verbatim>\<open>null\<close> makes the decoder throw a \<^verbatim>\<open>TypeError\<close>.
\<close>

theorem encode_decode_untyped_errors:
  "encodeH5Animate stringify garbage (metaArg \<lparr>ratio = 1, frame = []\<rparr>)
      (spriteInfoArg \<lparr>count = 1, dimensions = [\<lparr>width = - 1, height = 1\<rparr>]\<rparr>) (Some [])
   = Inl RangeError
   \<and> decodeH5Animate (\<lambda>b. if b = [0x6E, 0x75, 0x6C, 0x6C] then Some JNull else None)
      [0x41, 0x4E, 0x49, 0x4D,  1, 0, 0, 0,  4, 0, 0, 0,  4, 0, 0, 0,  0, 0, 0, 0,
       0x6E, 0x75, 0x6C, 0x6C]
   = Inl TypeError"
proof -
  have "encodeH5Animate stringify garbage (metaArg \<lparr>ratio = 1, frame = []\<rparr>)
      (spriteInfoArg \<lparr>count = 1, dimensions = [\<lparr>width = - 1, height = 1\<rparr>]\<rparr>) (Some [])
   = Inl RangeError"
  proof (cases "encodeH5Animate stringify garbage (metaArg \<lparr>ratio = 1, frame = []\<rparr>)
      (spriteInfoArg \<lparr>count = 1, dimensions = [\<lparr>width = - 1, height = 1\<rparr>]\<rparr>) (Some [])")
    case (Inl e)
    from encode_Inl [OF validate_typed_ok(1) Inl] Inl show ?thesis by simp
  next
    case (Inr buf)
    from encode_Inr_range [OF Inr validate_typed_ok(2)] show ?thesis by simp
  qed
  moreover have "decodeH5Animate (\<lambda>b. if b = [0x6E, 0x75, 0x6C, 0x6C] then Some JNull else None)
      [0x41, 0x4E, 0x49, 0x4D,  1, 0, 0, 0,  4, 0, 0, 0,  4, 0, 0, 0,  0, 0, 0, 0,
       0x6E, 0x75, 0x6C, 0x6C]
   = Inl TypeError"
    by (simp add: decoder_defs)
  ultimately show ?thesis by simp
qed

subsection \<open>The decoder\<close>

text \<open>
  Claim C2 fails on the code. In this buffer \<open>imageDataSize\<close> is 4 and the sprite table
  takes 12 bytes, so the size of the pixel payload is \<open>-8\<close>. \<^verbatim>\<open>readBytes(-8)\<close> passes
  \<^verbatim>\<open>checkBounds\<close>, returns no byte and moves the cursor back to offset 20; the 8 bytes of
  the sprite dimension are then read as the metadata, here the JSON text of the empty
  object followed by spaces, and decoding returns a result.
\<close>

theorem decode_negative_payload_size:
  "decodeH5Animate
     (\<lambda>b. if b = [0x7B, 0x7D, 0x20, 0x20, 0x20, 0x20, 0x20, 0x20] then Some (JObj []) else None)
     [0x41, 0x4E, 0x49, 0x4D,  1, 0, 0, 0,  4, 0, 0, 0,  8, 0, 0, 0,  1, 0, 0, 0,
      0x7B, 0x7D, 0x20, 0x20,  0x20, 0x20, 0x20, 0x20]
   = Inr \<lparr>meta = JObj [],
          spriteInfo = \<lparr>count = 1,
                        dimensions = [\<lparr>width = 539000187, height = 538976288\<rparr>]\<rparr>,
          webpData = []\<rparr>"
  by (simp add: decoder_defs)

text \<open>
  Claim C3, as the code has it. A buffer of at least four bytes whose first four bytes,
  each without its highest bit, are not the bytes of \<^verbatim>\<open>ANIM\<close> is refused with the error
  of \<^verbatim>\<open>createInvalidSignatureError\<close>: code \<^verbatim>\<open>INVALID_SIGNATURE\<close> (\<^verbatim>\<open>H5A001\<close>),
  position 0. A buffer of fewer than four bytes is refused with \<^verbatim>\<open>CORRUPTED_HEADER\<close> at
  position 0.
\<close>

theorem decode_signature_rejection:
  "(length buf < 4 \<longrightarrow>
      decodeH5Animate parse buf
        = Inl (H5 ((mkError CORRUPTED_HEADER)\<lparr>position := Some 0\<rparr>)))
   \<and> (4 \<le> length buf \<and> map (\<lambda>b. b AND 0x7F) (take 4 buf) \<noteq> [0x41, 0x4E, 0x49, 0x4D] \<longrightarrow>
      decodeH5Animate parse buf
        = Inl (H5 (createInvalidSignatureError (toStringAscii (take 4 buf))))
      \<and> code (createInvalidSignatureError (toStringAscii (take 4 buf))) = INVALID_SIGNATURE
      \<and> codeString (code (createInvalidSignatureError (toStringAscii (take 4 buf))))
          = ''H5A001''
      \<and> position (createInvalidSignatureError (toStringAscii (take 4 buf))) = Some 0)"
  by (simp add: decodeH5Animate_def parseHeader_def readString4 FILE_SIGNATURE_def
        createInvalidSignatureError_def mkError_def toStringAscii_ANIM)

theorem decode_signature_rejection_witness:
  "decodeH5Animate (\<lambda>b. None) [0x58, 0x4E, 0x49, 0x4D]
     = Inl (H5 \<lparr>code = INVALID_SIGNATURE, position = Some 0, expectedType = Some ''ANIM'',
                missingFields = None\<rparr>)
   \<and> decodeH5Animate (\<lambda>b. None) [0x41]
     = Inl (H5 \<lparr>code = CORRUPTED_HEADER, position = Some 0, expectedType = None,
                missingFields = None\<rparr>)"
  using decode_signature_rejection [of "[0x58, 0x4E, 0x49, 0x4D]" "\<lambda>b. None"]
    decode_signature_rejection [of "[0x41]" "\<lambda>b. None"]
  by (simp add: createInvalidSignatureError_def mkError_def)

text \<open>
  Claim C3 as stated fails. The two bytes \<^verbatim>\<open>AN\<close> are refused with \<^verbatim>\<open>CORRUPTED_HEADER\<close>,
  not with \<^verbatim>\<open>INVALID_SIGNATURE\<close>. And a file that starts with the bytes C1 4E 49 4D, which
  are not the bytes of \<^verbatim>\<open>ANIM\<close>, is decoded: the decoding of \<^verbatim>\<open>ascii\<close> clears the
  highest bit of C1 and gives the letter A.
\<close>

theorem decode_signature_not_rejected:
  "decodeH5Animate (\<lambda>b. None) [0x41, 0x4E]
     = Inl (H5 \<lparr>code = CORRUPTED_HEADER, position = Some 0, expectedType = None,
                missingFields = None\<rparr>)
   \<and> decodeH5Animate (\<lambda>b. if b = [0x7B, 0x7D] then Some (JObj []) else None)
       [0xC1, 0x4E, 0x49, 0x4D,  1, 0, 0, 0,  4, 0, 0, 0,  2, 0, 0, 0,  0, 0, 0, 0,  0x7B, 0x7D]
     = Inr \<lparr>meta = JObj [], spriteInfo = \<lparr>count = 0, dimensions = []\<rparr>, webpData = []\<rparr>"
  by (simp add: decoder_defs)

subsection \<open>Encoding and decoding again\<close>

text \<open>
  Claim C1, as the code has it. Let \<open>count\<close> be the number of dimensions, every width and
  height positive and below \<open>2^32\<close>, \<open>4 + 8 * count + length webpData\<close> and the length of
  the serialised metadata below \<open>2^32\<close>, and let \<^verbatim>\<open>JSON.parse\<close> give back the value that
  \<^verbatim>\<open>JSON.stringify\<close> wrote down. Then \<^verbatim>\<open>encodeH5Animate\<close> returns a buffer, and
  \<^verbatim>\<open>decodeH5Animate\<close> of that buffer returns the same \<open>spriteInfo\<close> and \<open>webpData\<close>, and
  metadata that reads as the given metadata with \<open>mirror\<close> and \<open>rotate\<close> set to 0 where
  they were absent.
\<close>

theorem encode_decode_roundtrip:
  assumes platform: "parse (stringify (metaTree m)) = Some (metaTree m)"
    and cnt: "count si = int (length (dimensions si))"
    and dims: "list_all (\<lambda>d. 0 < width d \<and> width d \<le> 4294967295
                       \<and> 0 < height d \<and> height d \<le> 4294967295) (dimensions si)"
    and size: "4 + 8 * count si + int (length webp) \<le> 4294967295"
    and msize: "int (length (stringify (metaTree m))) \<le> 4294967295"
  shows "\<exists>buf d. encodeH5Animate stringify garbage (metaArg m) (spriteInfoArg si) (Some webp) = Inr buf
      \<and> decodeH5Animate parse buf = Inr d
      \<and> asMeta (meta d) = Some (normalizeMeta m)
      \<and> spriteInfo d = si \<and> webpData d = webp"
proof -
  from dims have dims': "list_all (\<lambda>d. 0 \<le> width d \<and> width d \<le> 4294967295
                       \<and> 0 \<le> height d \<and> height d \<le> 4294967295) (dimensions si)"
    by (induction "dimensions si") (auto simp add: list_all_iff)
  from meta_roundtrip [of m] obtain X where X: "convertArraysToObjects (metaTree m) = Inr X"
    "asMeta X = Some (normalizeMeta m)" by blast
  note enc = encode_exact [where stringify = stringify and m = m and garbage = garbage, OF cnt dims' size msize]
  note dec = decode_exact [where mb = "stringify (metaTree m)" and parse = parse, OF cnt dims' size msize]
  from dec platform X have "decodeH5Animate parse
           (map of_char FILE_SIGNATURE @ u32Bytes 1
            @ u32Bytes (4 + 8 * count si + int (length webp))
            @ u32Bytes (int (length (stringify (metaTree m))))
            @ u32Bytes (count si)
            @ concat (map (\<lambda>d. u32Bytes (width d) @ u32Bytes (height d)) (dimensions si))
            @ webp @ stringify (metaTree m))
     = Inr \<lparr>meta = X, spriteInfo = si, webpData = webp\<rparr>" by simp
  with enc X show ?thesis by simp
qed

theorem encode_decode_roundtrip_witness:
  "\<exists>buf d.
     encodeH5Animate
       (\<lambda>t. [123, 34, 114, 97, 116, 105, 111, 34, 58, 50, 44, 34, 102, 114, 97, 109, 101, 34, 58, 91, 123, 34, 111, 98, 106, 101, 99, 116, 115, 34, 58, 91, 91, 48, 44, 49, 44, 50, 44, 49, 48, 48, 44, 50, 53, 53, 44, 48, 44, 48, 93, 93, 125, 93, 125])
       (\<lambda>i. 0)
       (metaArg \<lparr>ratio = 2, frame = [\<lparr>sound = None, objects = Some [\<lparr>obj_index = 0, obj_x = 1,
           obj_y = 2, obj_scale = 100, obj_opacity = 255, obj_mirror = None,
           obj_rotate = None\<rparr>]\<rparr>]\<rparr>)
       (spriteInfoArg \<lparr>count = 1, dimensions = [\<lparr>width = 2, height = 3\<rparr>]\<rparr>)
       (Some [7, 8]) = Inr buf
   \<and> decodeH5Animate
       (\<lambda>b. if b = [123, 34, 114, 97, 116, 105, 111, 34, 58, 50, 44, 34, 102, 114, 97, 109, 101, 34, 58, 91, 123, 34, 111, 98, 106, 101, 99, 116, 115, 34, 58, 91, 91, 48, 44, 49, 44, 50, 44, 49, 48, 48, 44, 50, 53, 53, 44, 48, 44, 48, 93, 93, 125, 93, 125]
            then Some (JObj [(''ratio'', JNum 2),
                   (''frame'', JArr [JObj [(''objects'',
                       JArr [JArr [JNum 0, JNum 1, JNum 2, JNum 100, JNum 255, JNum 0,
                                   JNum 0]])]])])
            else None) buf = Inr d
   \<and> asMeta (meta d)
       = Some \<lparr>ratio = 2, frame = [\<lparr>sound = None, objects = Some [\<lparr>obj_index = 0, obj_x = 1,
           obj_y = 2, obj_scale = 100, obj_opacity = 255, obj_mirror = Some 0,
           obj_rotate = Some 0\<rparr>]\<rparr>]\<rparr>
   \<and> spriteInfo d = \<lparr>count = 1, dimensions = [\<lparr>width = 2, height = 3\<rparr>]\<rparr>
   \<and> webpData d = [7, 8]"
  using encode_decode_roundtrip [where stringify = "\<lambda>t. [123, 34, 114, 97, 116, 105, 111, 34, 58, 50, 44, 34, 102, 114, 97, 109, 101, 34, 58, 91, 123, 34, 111, 98, 106, 101, 99, 116, 115, 34, 58, 91, 91, 48, 44, 49, 44, 50, 44, 49, 48, 48, 44, 50, 53, 53, 44, 48, 44, 48, 93, 93, 125, 93, 125]"
      and parse = "\<lambda>b. if b = [123, 34, 114, 97, 116, 105, 111, 34, 58, 50, 44, 34, 102, 114, 97, 109, 101, 34, 58, 91, 123, 34, 111, 98, 106, 101, 99, 116, 115, 34, 58, 91, 91, 48, 44, 49, 44, 50, 44, 49, 48, 48, 44, 50, 53, 53, 44, 48, 44, 48, 93, 93, 125, 93, 125]
            then Some (JObj [(''ratio'', JNum 2),
                   (''frame'', JArr [JObj [(''objects'',
                       JArr [JArr [JNum 0, JNum 1, JNum 2, JNum 100, JNum 255, JNum 0,
                                   JNum 0]])]])])
            else None"
      and m = "\<lparr>ratio = 2, frame = [\<lparr>sound = None, objects = Some [\<lparr>obj_index = 0, obj_x = 1,
           obj_y = 2, obj_scale = 100, obj_opacity = 255, obj_mirror = None,
           obj_rotate = None\<rparr>]\<rparr>]\<rparr>"
      and si = "\<lparr>count = 1, dimensions = [\<lparr>width = 2, height = 3\<rparr>]\<rparr>"
      and webp = "[7, 8]" and garbage = "\<lambda>i. 0"]
  by (simp add: metaTree_def frameTree_def metaReplacer_def convertObjectToArray_def
        normalizeMeta_def normalizeFrame_def normalizeObject_def)

text \<open>
  Claim C1 as stated fails. With one sprite and a pixel payload of \<open>2^32 - 12\<close> bytes the
  value of \<open>imageDataSize\<close> is \<open>2^32\<close>, and \<^verbatim>\<open>writeUInt32LE\<close> throws a
  \<^verbatim>\<open>RangeError\<close>: there is no buffer to decode.
\<close>

theorem encode_payload_too_large:
  "encodeH5Animate (\<lambda>t. []) (\<lambda>i. 0) (metaArg \<lparr>ratio = 1, frame = []\<rparr>)
      (spriteInfoArg \<lparr>count = 1, dimensions = [\<lparr>width = 1, height = 1\<rparr>]\<rparr>)
      (Some (replicate 4294967284 0))
   = Inl RangeError"
proof (cases "encodeH5Animate (\<lambda>t. []) (\<lambda>i. 0) (metaArg \<lparr>ratio = 1, frame = []\<rparr>)
      (spriteInfoArg \<lparr>count = 1, dimensions = [\<lparr>width = 1, height = 1\<rparr>]\<rparr>)
      (Some (replicate 4294967284 0))")
  case (Inl e)
  from encode_Inl [OF validate_typed_ok(1) Inl] Inl show ?thesis by simp
next
  case (Inr buf)
  from encode_Inr_range [OF Inr validate_typed_ok(2)] show ?thesis by simp
qed

subsection \<open>Further properties\<close>

lemma readUInt32LE_buffer: "readUInt32LE p = Inr (v, p') \<Longrightarrow> buffer p' = buffer p"
  by (auto simp add: readUInt32LE_def checkBounds_def andThen_def split: if_splits sum.splits)

lemma readString_buffer: "readString p n = Inr (s, p') \<Longrightarrow> buffer p' = buffer p"
  by (auto simp add: readString_def checkBounds_def andThen_def Let_def split: if_splits)

lemma parseHeader_buffer: "parseHeader p = Inr (h, p') \<Longrightarrow> buffer p' = buffer p"
  by (auto simp add: parseHeader_def andThen_def split: sum.splits if_splits prod.splits
        dest!: readUInt32LE_buffer readString_buffer)

lemma readDimensions_buffer: "readDimensions n p = Inr (ds, p') \<Longrightarrow> buffer p' = buffer p"
proof (induction n arbitrary: p ds)
  case 0
  then show ?case by simp
next
  case (Suc n)
  from Suc.prems obtain w p1 h p2 ds' where a: "readUInt32LE p = Inr (w, p1)"
    and b: "readUInt32LE p1 = Inr (h, p2)" and c: "readDimensions n p2 = Inr (ds', p')"
    by (auto simp add: andThen_def split: sum.splits prod.splits)
  from readUInt32LE_buffer [OF a] readUInt32LE_buffer [OF b] Suc.IH [OF c] show ?case by simp
qed

lemma parseSpriteInfo_buffer: "parseSpriteInfo p = Inr (si, p') \<Longrightarrow> buffer p' = buffer p"
  by (auto simp add: parseSpriteInfo_def andThen_def split: sum.splits prod.splits
        dest!: readUInt32LE_buffer readDimensions_buffer)

text \<open>
  The other half of claim C2. When the header and the sprite table are read and the size
  of the pixel payload, \<open>imageDataSize - (4 + 8 * count)\<close>, is more than the bytes left
  after the sprite table, \<^verbatim>\<open>decodeH5Animate\<close> throws \<^verbatim>\<open>CORRUPTED_HEADER\<close> with the
  position of the end of the sprite table.
\<close>

theorem decode_payload_beyond_buffer:
  assumes "parseHeader (newBinaryParser buf) = Inr (header, p1)"
    and "parseSpriteInfo p1 = Inr (si, p2)"
    and "imageDataSize header - getSpriteInfoSize si > int (length buf) - offset p2"
  shows "decodeH5Animate parse buf
     = Inl (H5 ((mkError CORRUPTED_HEADER)\<lparr>position := Some (offset p2)\<rparr>))"
proof -
  from parseHeader_buffer [OF assms(1)] parseSpriteInfo_buffer [OF assms(2)]
  have "buffer p2 = buf" by (simp add: newBinaryParser_def)
  with assms(3) have "readBytes p2 (imageDataSize header - getSpriteInfoSize si)
      = Inl (H5 ((mkError CORRUPTED_HEADER)\<lparr>position := Some (offset p2)\<rparr>))"
    by (simp add: readBytes_def checkBounds_def)
  with assms(1,2) show ?thesis by (simp add: decodeH5Animate_def Let_def)
qed

theorem decode_payload_beyond_buffer_witness:
  "decodeH5Animate (\<lambda>b. None)
     [0x41, 0x4E, 0x49, 0x4D,  1, 0, 0, 0,  100, 0, 0, 0,  0, 0, 0, 0,  0, 0, 0, 0,  1, 2, 3]
   = Inl (H5 \<lparr>code = CORRUPTED_HEADER, position = Some 20, expectedType = None,
              missingFields = None\<rparr>)"
proof -
  let ?b = "[0x41, 0x4E, 0x49, 0x4D,  1, 0, 0, 0,  100, 0, 0, 0,  0, 0, 0, 0,  0, 0, 0, 0,
             1, 2, 3] :: Buffer"
  have h: "parseHeader (newBinaryParser ?b)
      = Inr (\<lparr>signature = ''ANIM'', version = 1, imageDataSize = 100, metaDataSize = 0\<rparr>,
             \<lparr>buffer = ?b, offset = 16\<rparr>)"
    by (simp add: decoder_defs)
  have s: "parseSpriteInfo \<lparr>buffer = ?b, offset = 16\<rparr>
      = Inr (\<lparr>count = 0, dimensions = []\<rparr>, \<lparr>buffer = ?b, offset = 20\<rparr>)"
    by (simp add: decoder_defs)
  from decode_payload_beyond_buffer [OF h s, of "\<lambda>b. None"] show ?thesis
    by (simp add: getSpriteInfoSize_def mkError_def)
qed

text \<open>
  Once \<^verbatim>\<open>validateEncodeInput\<close> has accepted the arguments, every error that
  \<^verbatim>\<open>encodeH5Animate\<close> raises is the platform's \<^verbatim>\<open>RangeError\<close>.
\<close>

theorem encode_errors_after_validation:
  assumes "validateEncodeInput m si webp = Inr u"
    and "encodeH5Animate stringify garbage m si webp = Inl e"
  shows "e = RangeError"
  using assms by (rule encode_Inl)

theorem encode_errors_after_validation_witness:
  "encodeH5Animate (\<lambda>t. []) (\<lambda>i. 0) (metaArg \<lparr>ratio = 1, frame = []\<rparr>)
      (spriteInfoArg \<lparr>count = - 1, dimensions = []\<rparr>) (Some [1, 2, 3, 4])
   = Inl RangeError"
proof (cases "encodeH5Animate (\<lambda>t. []) (\<lambda>i. 0) (metaArg \<lparr>ratio = 1, frame = []\<rparr>)
      (spriteInfoArg \<lparr>count = - 1, dimensions = []\<rparr>) (Some [1, 2, 3, 4])")
  case (Inl e)
  from encode_errors_after_validation [OF validate_typed_ok(1) Inl] Inl show ?thesis by simp
next
  case (Inr buf)
  from encode_Inr_range [OF Inr validate_typed_ok(2)] show ?thesis by simp
qed

end
